theory Spec2Isabelle
  imports Main "HOL-Library.Word"
begin

section \<open>Machine integers of the source\<close>

text \<open>
  Go's \<open>int64\<close> is a 64-bit two's complement integer whose arithmetic wraps around.
  Go's \<open>int\<close> has the width of the target; the 64-bit targets are modelled.
  Comparisons of the source are signed (\<open>\<le>s\<close>, \<open><s\<close>).
\<close>

type_synonym go_int64 = "64 word"
type_synonym go_int = "64 word"

section \<open>Library functions of package strings and package path\<close>

text \<open>
  A Go string is a sequence of bytes, here a \<open>string\<close> (a list of 8-bit characters).
  \<open>strings.HasPrefix(s, prefix)\<close> is \<open>len(s) >= len(prefix) && s[:len(prefix)] == prefix\<close>,
  \<open>strings.HasSuffix\<close> the same at the other end.
\<close>

definition HasPrefix :: "string \<Rightarrow> string \<Rightarrow> bool" where
  "HasPrefix s pre = (length pre \<le> length s \<and> take (length pre) s = pre)"

definition HasSuffix :: "string \<Rightarrow> string \<Rightarrow> bool" where
  "HasSuffix s suf = (length suf \<le> length s \<and> drop (length s - length suf) s = suf)"

text \<open>\<open>path.IsAbs(path)\<close> is \<open>len(path) > 0 && path[0] == '/'\<close>.\<close>

definition IsAbs :: "string \<Rightarrow> bool" where
  "IsAbs p = (0 < length p \<and> hd p = CHR ''/'')"

text \<open>
  \<open>path.Clean\<close> of the Go standard library. Its lazily allocated buffer \<open>out\<close> is the
  list of the bytes written so far (\<open>out.w\<close> is its length), \<open>p\<close> is the unread rest
  \<open>path[r:]\<close> of the input, and \<open>dotdot\<close> is the index in the buffer where a
  \<open>..\<close> element must stop backtracking.

  The backtracking loop of the \<open>..\<close> case,
  \<open>out.w--; for out.w > dotdot && out.index(out.w) != '/' { out.w-- }\<close>,
  is \<open>dotdot_backtrack\<close> started at \<open>out.w - 1\<close>; it only reads indices below the
  old length of the buffer.
\<close>

fun dotdot_backtrack :: "string \<Rightarrow> nat \<Rightarrow> nat \<Rightarrow> nat" where
  "dotdot_backtrack buf dotdot w =
     (if dotdot < w \<and> buf ! w \<noteq> CHR ''/'' then dotdot_backtrack buf dotdot (w - 1) else w)"

declare dotdot_backtrack.simps [simp del]

function clean_loop :: "bool \<Rightarrow> string \<Rightarrow> string \<Rightarrow> nat \<Rightarrow> string" where
  "clean_loop rooted p out dotdot =
     (if p = [] then out
      else if hd p = CHR ''/'' then
        \<comment> \<open>empty path element\<close>
        clean_loop rooted (tl p) out dotdot
      else if hd p = CHR ''.'' \<and> (tl p = [] \<or> hd (tl p) = CHR ''/'') then
        \<comment> \<open>. element\<close>
        clean_loop rooted (tl p) out dotdot
      else if hd p = CHR ''.'' \<and> hd (tl p) = CHR ''.''
              \<and> (tl (tl p) = [] \<or> hd (tl (tl p)) = CHR ''/'') then
        \<comment> \<open>.. element: remove to last /\<close>
        (if dotdot < length out then
           clean_loop rooted (tl (tl p))
             (take (dotdot_backtrack out dotdot (length out - 1)) out) dotdot
         else if \<not> rooted then
           clean_loop rooted (tl (tl p))
             ((if 0 < length out then out @ ''/'' else out) @ ''..'')
             (length ((if 0 < length out then out @ ''/'' else out) @ ''..''))
         else clean_loop rooted (tl (tl p)) out dotdot)
      else
        \<comment> \<open>real path element: add slash if needed, copy element\<close>
        clean_loop rooted (dropWhile (\<lambda>c. c \<noteq> CHR ''/'') p)
          ((if rooted \<and> length out \<noteq> 1 \<or> \<not> rooted \<and> length out \<noteq> 0
            then out @ ''/'' else out) @ takeWhile (\<lambda>c. c \<noteq> CHR ''/'') p)
          dotdot)"
  by pat_completeness auto
termination
proof (relation "measure (\<lambda>(rooted, p, out, dotdot). length p)")
  show "wf (measure (\<lambda>(rooted, p, out, dotdot). length p))"
    by simp
next
  fix rooted :: bool and p out :: string and dotdot :: nat
  assume "p \<noteq> []" and "hd p \<noteq> CHR ''/''"
  then have "length (dropWhile (\<lambda>c. c \<noteq> CHR ''/'') p) < length p"
    by (cases p) (simp_all add: less_Suc_eq_le length_dropWhile_le)
  then show "((rooted, dropWhile (\<lambda>c. c \<noteq> CHR ''/'') p,
                (if rooted \<and> length out \<noteq> 1 \<or> \<not> rooted \<and> length out \<noteq> 0
                 then out @ ''/'' else out) @ takeWhile (\<lambda>c. c \<noteq> CHR ''/'') p, dotdot),
               (rooted, p, out, dotdot)) \<in> measure (\<lambda>(rooted, p, out, dotdot). length p)"
    by simp
qed (auto simp: neq_Nil_conv)

declare clean_loop.simps [simp del]

definition Clean :: "string \<Rightarrow> string" where
  "Clean path =
     (if path = [] then ''.''
      else
        let rooted = (hd path = CHR ''/'');
            out = (if rooted then clean_loop rooted (tl path) ''/'' 1
                   else clean_loop rooted path [] 0)
        in if length out = 0 then ''.'' else out)"

text \<open>
  \<open>path.Join(elem...)\<close>: the non-empty elements are joined with slashes (an empty
  element after a non-empty buffer still adds its slash) and the result is cleaned; when
  all elements are empty the result is the empty string.
\<close>

fun join_buf :: "string list \<Rightarrow> string \<Rightarrow> string" where
  "join_buf [] buf = buf"
| "join_buf (e # es) buf =
     join_buf es
       (if 0 < length buf \<or> e \<noteq> []
        then (if 0 < length buf then buf @ ''/'' else buf) @ e
        else buf)"

definition Join :: "string list \<Rightarrow> string" where
  "Join elem =
     (if sum_list (map length elem) = 0 then []
      else Clean (join_buf elem []))"

section \<open>Helpers of package vfs\<close>

definition ensureAbsPath :: "string \<Rightarrow> string" where
  "ensureAbsPath name = (if IsAbs name then name else Join [''/'', name])"

definition isEqualityCheckModeValid :: "go_int \<Rightarrow> bool" where
  "isEqualityCheckModeValid mode = (0 \<le>s mode \<or> mode \<le>s 1)"

definition getMountPath :: "string \<Rightarrow> string" where
  "getMountPath mountPath = (if mountPath = ''/'' then [] else mountPath)"

section \<open>QuotaCheckResult\<close>

record QuotaCheckResult =
  HasSpace :: bool
  AllowedSize :: go_int64
  AllowedFiles :: go_int
  UsedSize :: go_int64
  UsedFiles :: go_int
  QuotaSize :: go_int64
  QuotaFiles :: go_int

definition GetRemainingSize :: "QuotaCheckResult \<Rightarrow> go_int64" where
  "GetRemainingSize q = (if 0 <s QuotaSize q then QuotaSize q - UsedSize q else 0)"

definition GetRemainingFiles :: "QuotaCheckResult \<Rightarrow> go_int" where
  "GetRemainingFiles q = (if 0 <s QuotaFiles q then QuotaFiles q - UsedFiles q else 0)"


section \<open>Errors and panics\<close>

text \<open>
  Every error value the modelled functions build is a constructor: the sentinel of the
  message of \<open>errors.New\<close> or \<open>fmt.Errorf\<close>, with the formatted value where there
  is one. \<open>ErrExternal\<close> stands for the errors produced outside of package vfs
  (url.Parse, the KMS, the metadata plugin, the storage backend). The wrappers of
  \<open>util.NewValidationError\<close> keep the wrapped error.
\<close>

datatype error =
    ErrBucketEmpty
  | ErrRegionEmpty
  | ErrAccessKeyEmpty
  | ErrAccessSecretEmpty
  | ErrInvalidEncryptedAccessSecret
  | ErrInvalidAccessSecret
  | ErrKeyPrefixSlash
  | ErrUploadPartSize
  | ErrInvalidUploadConcurrency go_int
  | ErrDownloadPartSize
  | ErrInvalidDownloadConcurrency go_int
  | ErrInvalidEncryptedCredentials
  | ErrInvalidCredentials
  | ErrContainerEmpty
  | ErrInvalidEncryptedSASURL
  | ErrCredentialsEmptyOrInvalid
  | ErrInvalidEncryptedAccountKey
  | ErrInvalidUploadPartSize go_int64
  | ErrInvalidDownloadPartSize go_int64
  | ErrInvalidAccessTier string
  | ErrExternal string
  | ValidationS3Config error
  | ValidationS3Encrypt error
  | ValidationGCSConfig error
  | ValidationGCSEncrypt error

text \<open>A method invoked through a nil pointer that reads the receiver panics.\<close>

datatype panic = NilDereference

definition pbind :: "panic + 'a \<Rightarrow> ('a \<Rightarrow> panic + 'b) \<Rightarrow> panic + 'b" where
  "pbind m f = (case m of Inl p \<Rightarrow> Inl p | Inr v \<Rightarrow> f v)"

section \<open>The Secret capability of package kms\<close>

text \<open>
  Modelled from the spec: package \<open>internal/kms\<close> (type \<open>Secret\<close> and its methods)
  is not among the source files. The spec gives a Secret the states empty, plain,
  encrypted and invalid, to be modelled as a tagged variant, with the operations
  \<open>is_empty\<close>, \<open>is_plain\<close>, \<open>is_encrypted\<close>, \<open>get_payload\<close>,
  \<open>set_additional_data\<close> and \<open>is_equal\<close> (deep structural equality). A non-empty
  secret carries its payload and its additional data.
\<close>

datatype Secret =
    EmptySecret
  | PlainSecret string string
  | EncryptedSecret string string
  | InvalidSecret string string

definition NewEmptySecret :: Secret where
  "NewEmptySecret = EmptySecret"

fun IsEmpty :: "Secret \<Rightarrow> bool" where
  "IsEmpty EmptySecret = True"
| "IsEmpty _ = False"

fun IsPlain :: "Secret \<Rightarrow> bool" where
  "IsPlain (PlainSecret _ _) = True"
| "IsPlain _ = False"

fun IsEncrypted :: "Secret \<Rightarrow> bool" where
  "IsEncrypted (EncryptedSecret _ _) = True"
| "IsEncrypted _ = False"

fun GetPayload :: "Secret \<Rightarrow> string" where
  "GetPayload EmptySecret = []"
| "GetPayload (PlainSecret p _) = p"
| "GetPayload (EncryptedSecret p _) = p"
| "GetPayload (InvalidSecret p _) = p"

fun SetAdditionalData :: "string \<Rightarrow> Secret \<Rightarrow> Secret" where
  "SetAdditionalData ad EmptySecret = EmptySecret"
| "SetAdditionalData ad (PlainSecret p _) = PlainSecret p ad"
| "SetAdditionalData ad (EncryptedSecret p _) = EncryptedSecret p ad"
| "SetAdditionalData ad (InvalidSecret p _) = InvalidSecret p ad"

definition IsEqual :: "Secret \<Rightarrow> Secret \<Rightarrow> bool" where
  "IsEqual s other = (s = other)"

text \<open>
  Modelled from the spec: what depends on the cipher of the KMS, and what the Go
  standard library decides, is a parameter of the model: \<open>is_valid\<close> (well-formed
  ciphertext), \<open>is_valid_input\<close> (acceptable plaintext) and \<open>encrypt\<close> of a Secret,
  \<open>strings.TrimSpace\<close>, and the error of \<open>url.Parse\<close>.
\<close>

record deps =
  IsValid :: "Secret \<Rightarrow> bool"
  IsValidInput :: "Secret \<Rightarrow> bool"
  Encrypt :: "Secret \<Rightarrow> error + Secret"
  TrimSpace :: "string \<Rightarrow> string"
  url_Parse :: "string \<Rightarrow> error option"

text \<open>
  The configurations hold a \<open>*kms.Secret\<close>: \<open>None\<close> is the nil pointer. The
  methods of a Secret read its state, so calling one through nil is a nil dereference;
  the source guards such calls in \<open>validate\<close>, \<open>isEqual\<close> and
  \<open>HideConfidentialData\<close> with a nil check.
\<close>

definition deref :: "Secret option \<Rightarrow> panic + Secret" where
  "deref p = (case p of None \<Rightarrow> Inl NilDereference | Some s \<Rightarrow> Inr s)"

text \<open>The block on the key prefix that the three \<open>validate\<close> methods share.\<close>

definition validateKeyPrefix :: "string \<Rightarrow> error + string" where
  "validateKeyPrefix kp =
     (if kp \<noteq> [] then
        (if HasPrefix kp ''/'' then Inl ErrKeyPrefixSlash
         else Inr (if \<not> HasSuffix (Clean kp) ''/'' then Clean kp @ ''/'' else Clean kp))
      else Inr kp)"

section \<open>S3FsConfig\<close>

record S3FsConfig =
  S3_Bucket :: string
  S3_KeyPrefix :: string
  S3_Region :: string
  S3_AccessKey :: string
  S3_RoleARN :: string
  S3_Endpoint :: string
  S3_StorageClass :: string
  S3_ACL :: string
  S3_UploadPartSize :: go_int64
  S3_UploadConcurrency :: go_int
  S3_DownloadPartSize :: go_int64
  S3_DownloadConcurrency :: go_int
  S3_DownloadPartMaxTime :: go_int
  S3_UploadPartMaxTime :: go_int
  S3_ForcePathStyle :: bool
  S3_AccessSecret :: "Secret option"

definition S3_areMultipartFieldsEqual :: "S3FsConfig \<Rightarrow> S3FsConfig \<Rightarrow> bool" where
  "S3_areMultipartFieldsEqual c other =
     (if S3_UploadPartSize c \<noteq> S3_UploadPartSize other then False
      else if S3_UploadConcurrency c \<noteq> S3_UploadConcurrency other then False
      else if S3_DownloadConcurrency c \<noteq> S3_DownloadConcurrency other then False
      else if S3_DownloadPartSize c \<noteq> S3_DownloadPartSize other then False
      else if S3_DownloadPartMaxTime c \<noteq> S3_DownloadPartMaxTime other then False
      else if S3_UploadPartMaxTime c \<noteq> S3_UploadPartMaxTime other then False
      else True)"

text \<open>
  \<open>isSecretEqual\<close> has a pointer receiver: the empty secret it stores in a nil
  \<open>c.AccessSecret\<close> stays in the caller's configuration, which is returned with the
  result; \<open>other\<close> is a copy.
\<close>

definition S3_isSecretEqual :: "S3FsConfig \<Rightarrow> S3FsConfig \<Rightarrow> (panic + bool) \<times> S3FsConfig" where
  "S3_isSecretEqual c other =
     (let c1 = (if S3_AccessSecret c = None then c\<lparr>S3_AccessSecret := Some NewEmptySecret\<rparr> else c);
          other1 = (if S3_AccessSecret other = None
                    then other\<lparr>S3_AccessSecret := Some NewEmptySecret\<rparr> else other)
      in (pbind (deref (S3_AccessSecret c1)) (\<lambda>s.
          pbind (deref (S3_AccessSecret other1)) (\<lambda>t. Inr (IsEqual s t))), c1))"

definition S3_isEqual :: "S3FsConfig \<Rightarrow> S3FsConfig \<Rightarrow> (panic + bool) \<times> S3FsConfig" where
  "S3_isEqual c other =
     (if S3_Bucket c \<noteq> S3_Bucket other then (Inr False, c)
      else if S3_KeyPrefix c \<noteq> S3_KeyPrefix other then (Inr False, c)
      else if S3_Region c \<noteq> S3_Region other then (Inr False, c)
      else if S3_AccessKey c \<noteq> S3_AccessKey other then (Inr False, c)
      else if S3_RoleARN c \<noteq> S3_RoleARN other then (Inr False, c)
      else if S3_Endpoint c \<noteq> S3_Endpoint other then (Inr False, c)
      else if S3_StorageClass c \<noteq> S3_StorageClass other then (Inr False, c)
      else if S3_ACL c \<noteq> S3_ACL other then (Inr False, c)
      else if \<not> S3_areMultipartFieldsEqual c other then (Inr False, c)
      else if S3_ForcePathStyle c \<noteq> S3_ForcePathStyle other then (Inr False, c)
      else S3_isSecretEqual c other)"

text \<open>
  \<open>checkCredentials\<close> calls a method of \<open>c.AccessSecret\<close> on every path (in its
  first or its second condition), so the pointer is dereferenced once, first.
\<close>

definition S3_checkCredentials :: "deps \<Rightarrow> S3FsConfig \<Rightarrow> panic + error option" where
  "S3_checkCredentials d c =
     pbind (deref (S3_AccessSecret c)) (\<lambda>s.
       Inr (if S3_AccessKey c = [] \<and> \<not> IsEmpty s then Some ErrAccessKeyEmpty
            else if IsEmpty s \<and> S3_AccessKey c \<noteq> [] then Some ErrAccessSecretEmpty
            else if IsEncrypted s \<and> \<not> IsValid d s then Some ErrInvalidEncryptedAccessSecret
            else if \<not> IsEmpty s \<and> \<not> IsValidInput d s then Some ErrInvalidAccessSecret
            else None))"

definition S3_checkPartSizeAndConcurrency :: "S3FsConfig \<Rightarrow> error option" where
  "S3_checkPartSizeAndConcurrency c =
     (if S3_UploadPartSize c \<noteq> 0 \<and> (S3_UploadPartSize c <s 5 \<or> 5000 <s S3_UploadPartSize c)
      then Some ErrUploadPartSize
      else if S3_UploadConcurrency c <s 0 \<or> 64 <s S3_UploadConcurrency c
      then Some (ErrInvalidUploadConcurrency (S3_UploadConcurrency c))
      else if S3_DownloadPartSize c \<noteq> 0 \<and> (S3_DownloadPartSize c <s 5 \<or> 5000 <s S3_DownloadPartSize c)
      then Some ErrDownloadPartSize
      else if S3_DownloadConcurrency c <s 0 \<or> 64 <s S3_DownloadConcurrency c
      then Some (ErrInvalidDownloadConcurrency (S3_DownloadConcurrency c))
      else None)"

definition S3_isSameResource :: "S3FsConfig \<Rightarrow> S3FsConfig \<Rightarrow> bool" where
  "S3_isSameResource c other =
     (if S3_Bucket c \<noteq> S3_Bucket other then False
      else if S3_Endpoint c \<noteq> S3_Endpoint other then False
      else S3_Region c = S3_Region other)"

text \<open>
  \<open>validate\<close> mutates the configuration in place: the result is the returned error (or
  the panic) together with the configuration as the call leaves it, also when it fails.
\<close>

definition S3_validate :: "deps \<Rightarrow> S3FsConfig \<Rightarrow> (panic + error option) \<times> S3FsConfig" where
  "S3_validate d c =
     (let c1 = (if S3_AccessSecret c = None then c\<lparr>S3_AccessSecret := Some NewEmptySecret\<rparr> else c)
      in if S3_Bucket c1 = [] then (Inr (Some ErrBucketEmpty), c1)
         else if S3_Endpoint c1 = [] \<and> S3_Region c1 = [] then (Inr (Some ErrRegionEmpty), c1)
         else (case S3_checkCredentials d c1 of
                 Inl p \<Rightarrow> (Inl p, c1)
               | Inr (Some err) \<Rightarrow> (Inr (Some err), c1)
               | Inr None \<Rightarrow>
                  (case validateKeyPrefix (S3_KeyPrefix c1) of
                     Inl err \<Rightarrow> (Inr (Some err), c1)
                   | Inr kp \<Rightarrow>
                      (let c2 = c1\<lparr>S3_KeyPrefix := kp\<rparr>;
                           c3 = c2\<lparr>S3_StorageClass := TrimSpace d (S3_StorageClass c2)\<rparr>;
                           c4 = c3\<lparr>S3_ACL := TrimSpace d (S3_ACL c3)\<rparr>
                       in (Inr (S3_checkPartSizeAndConcurrency c4), c4)))))"

definition S3_ValidateAndEncryptCredentials ::
  "deps \<Rightarrow> string \<Rightarrow> S3FsConfig \<Rightarrow> (panic + error option) \<times> S3FsConfig" where
  "S3_ValidateAndEncryptCredentials d additionalData c =
     (case S3_validate d c of
        (Inl p, c1) \<Rightarrow> (Inl p, c1)
      | (Inr (Some err), c1) \<Rightarrow> (Inr (Some (ValidationS3Config err)), c1)
      | (Inr None, c1) \<Rightarrow>
         (case deref (S3_AccessSecret c1) of
            Inl p \<Rightarrow> (Inl p, c1)
          | Inr s \<Rightarrow>
             (if IsPlain s then
                (case Encrypt d (SetAdditionalData additionalData s) of
                   Inl err \<Rightarrow>
                     (Inr (Some (ValidationS3Encrypt err)),
                      c1\<lparr>S3_AccessSecret := Some (SetAdditionalData additionalData s)\<rparr>)
                 | Inr s' \<Rightarrow> (Inr None, c1\<lparr>S3_AccessSecret := Some s'\<rparr>))
              else (Inr None, c1))))"

section \<open>GCSFsConfig\<close>

record GCSFsConfig =
  GCS_Bucket :: string
  GCS_KeyPrefix :: string
  GCS_AutomaticCredentials :: go_int
  GCS_StorageClass :: string
  GCS_ACL :: string
  GCS_UploadPartSize :: go_int64
  GCS_UploadPartMaxTime :: go_int
  GCS_Credentials :: "Secret option"

definition GCS_isEqual :: "GCSFsConfig \<Rightarrow> GCSFsConfig \<Rightarrow> (panic + bool) \<times> GCSFsConfig" where
  "GCS_isEqual c other =
     (if GCS_Bucket c \<noteq> GCS_Bucket other then (Inr False, c)
      else if GCS_KeyPrefix c \<noteq> GCS_KeyPrefix other then (Inr False, c)
      else if GCS_AutomaticCredentials c \<noteq> GCS_AutomaticCredentials other then (Inr False, c)
      else if GCS_StorageClass c \<noteq> GCS_StorageClass other then (Inr False, c)
      else if GCS_ACL c \<noteq> GCS_ACL other then (Inr False, c)
      else if GCS_UploadPartSize c \<noteq> GCS_UploadPartSize other then (Inr False, c)
      else if GCS_UploadPartMaxTime c \<noteq> GCS_UploadPartMaxTime other then (Inr False, c)
      else
        (let c1 = (if GCS_Credentials c = None then c\<lparr>GCS_Credentials := Some NewEmptySecret\<rparr> else c);
             other1 = (if GCS_Credentials other = None
                       then other\<lparr>GCS_Credentials := Some NewEmptySecret\<rparr> else other)
         in (pbind (deref (GCS_Credentials c1)) (\<lambda>s.
             pbind (deref (GCS_Credentials other1)) (\<lambda>t. Inr (IsEqual s t))), c1)))"

definition GCS_isSameResource :: "GCSFsConfig \<Rightarrow> GCSFsConfig \<Rightarrow> bool" where
  "GCS_isSameResource c other = (GCS_Bucket c = GCS_Bucket other)"

definition GCS_validate :: "deps \<Rightarrow> GCSFsConfig \<Rightarrow> (panic + error option) \<times> GCSFsConfig" where
  "GCS_validate d c =
     (let c1 = (if GCS_Credentials c = None \<or> GCS_AutomaticCredentials c = 1
                then c\<lparr>GCS_Credentials := Some NewEmptySecret\<rparr> else c)
      in if GCS_Bucket c1 = [] then (Inr (Some ErrBucketEmpty), c1)
         else (case validateKeyPrefix (GCS_KeyPrefix c1) of
                 Inl err \<Rightarrow> (Inr (Some err), c1)
               | Inr kp \<Rightarrow>
                  (let c2 = c1\<lparr>GCS_KeyPrefix := kp\<rparr>
                   in case deref (GCS_Credentials c2) of
                        Inl p \<Rightarrow> (Inl p, c2)
                      | Inr s \<Rightarrow>
                         (if IsEncrypted s \<and> \<not> IsValid d s
                          then (Inr (Some ErrInvalidEncryptedCredentials), c2)
                          else if GCS_AutomaticCredentials c2 = 0 \<and> \<not> IsValidInput d s
                          then (Inr (Some ErrInvalidCredentials), c2)
                          else
                            (let c3 = c2\<lparr>GCS_StorageClass := TrimSpace d (GCS_StorageClass c2)\<rparr>;
                                 c4 = c3\<lparr>GCS_ACL := TrimSpace d (GCS_ACL c3)\<rparr>;
                                 c5 = (if GCS_UploadPartSize c4 <s 0
                                       then c4\<lparr>GCS_UploadPartSize := 0\<rparr> else c4);
                                 c6 = (if GCS_UploadPartMaxTime c5 <s 0
                                       then c5\<lparr>GCS_UploadPartMaxTime := 0\<rparr> else c5)
                             in (Inr None, c6))))))"

text \<open>
  The last component of the result of \<open>ValidateAndEncryptCredentials\<close> counts the
  calls of \<open>Encrypt\<close> it made.
\<close>

definition GCS_ValidateAndEncryptCredentials ::
  "deps \<Rightarrow> string \<Rightarrow> GCSFsConfig \<Rightarrow> (panic + error option) \<times> GCSFsConfig \<times> nat" where
  "GCS_ValidateAndEncryptCredentials d additionalData c =
     (case GCS_validate d c of
        (Inl p, c1) \<Rightarrow> (Inl p, c1, 0)
      | (Inr (Some err), c1) \<Rightarrow> (Inr (Some (ValidationGCSConfig err)), c1, 0)
      | (Inr None, c1) \<Rightarrow>
         (case deref (GCS_Credentials c1) of
            Inl p \<Rightarrow> (Inl p, c1, 0)
          | Inr s \<Rightarrow>
             (if IsPlain s then
                (case Encrypt d (SetAdditionalData additionalData s) of
                   Inl err \<Rightarrow>
                     (Inr (Some (ValidationGCSEncrypt err)),
                      c1\<lparr>GCS_Credentials := Some (SetAdditionalData additionalData s)\<rparr>, 1)
                 | Inr s' \<Rightarrow> (Inr None, c1\<lparr>GCS_Credentials := Some s'\<rparr>, 1))
              else (Inr None, c1, 0))))"

section \<open>AzBlobFsConfig\<close>

record AzBlobFsConfig =
  Az_Container :: string
  Az_AccountName :: string
  Az_Endpoint :: string
  Az_KeyPrefix :: string
  Az_UploadPartSize :: go_int64
  Az_UploadConcurrency :: go_int
  Az_DownloadPartSize :: go_int64
  Az_DownloadConcurrency :: go_int
  Az_UseEmulator :: bool
  Az_AccessTier :: string
  Az_AccountKey :: "Secret option"
  Az_SASURL :: "Secret option"

definition validAzAccessTier :: "string list" where
  "validAzAccessTier = [[], ''Archive'', ''Hot'', ''Cool'']"

definition Az_isSecretEqual ::
  "AzBlobFsConfig \<Rightarrow> AzBlobFsConfig \<Rightarrow> (panic + bool) \<times> AzBlobFsConfig" where
  "Az_isSecretEqual c other =
     (let c1 = (if Az_AccountKey c = None then c\<lparr>Az_AccountKey := Some NewEmptySecret\<rparr> else c);
          other1 = (if Az_AccountKey other = None
                    then other\<lparr>Az_AccountKey := Some NewEmptySecret\<rparr> else other)
      in (pbind (deref (Az_AccountKey c1)) (\<lambda>s.
          pbind (deref (Az_AccountKey other1)) (\<lambda>t. Inr (IsEqual s t))), c1))"

text \<open>
  \<open>isEqual\<close> calls \<open>IsEmpty\<close> through \<open>c.SASURL\<close> and \<open>other.SASURL\<close> with no
  nil check before.
\<close>

definition Az_isEqual ::
  "AzBlobFsConfig \<Rightarrow> AzBlobFsConfig \<Rightarrow> (panic + bool) \<times> AzBlobFsConfig" where
  "Az_isEqual c other =
     (if Az_Container c \<noteq> Az_Container other then (Inr False, c)
      else if Az_AccountName c \<noteq> Az_AccountName other then (Inr False, c)
      else if Az_Endpoint c \<noteq> Az_Endpoint other then (Inr False, c)
      else
        (case deref (Az_SASURL c) of
           Inl p \<Rightarrow> (Inl p, c)
         | Inr s0 \<Rightarrow>
            (let c1 = (if IsEmpty s0 then c\<lparr>Az_SASURL := Some NewEmptySecret\<rparr> else c)
             in case deref (Az_SASURL other) of
                  Inl p \<Rightarrow> (Inl p, c1)
                | Inr t0 \<Rightarrow>
                   (let other1 = (if IsEmpty t0 then other\<lparr>Az_SASURL := Some NewEmptySecret\<rparr>
                                  else other)
                    in case pbind (deref (Az_SASURL c1)) (\<lambda>s.
                            pbind (deref (Az_SASURL other1)) (\<lambda>t. Inr (IsEqual s t))) of
                         Inl p \<Rightarrow> (Inl p, c1)
                       | Inr eq \<Rightarrow>
                          (if \<not> eq then (Inr False, c1)
                           else if Az_KeyPrefix c1 \<noteq> Az_KeyPrefix other1 then (Inr False, c1)
                           else if Az_UploadPartSize c1 \<noteq> Az_UploadPartSize other1 then (Inr False, c1)
                           else if Az_UploadConcurrency c1 \<noteq> Az_UploadConcurrency other1
                           then (Inr False, c1)
                           else if Az_DownloadPartSize c1 \<noteq> Az_DownloadPartSize other1
                           then (Inr False, c1)
                           else if Az_DownloadConcurrency c1 \<noteq> Az_DownloadConcurrency other1
                           then (Inr False, c1)
                           else if Az_UseEmulator c1 \<noteq> Az_UseEmulator other1 then (Inr False, c1)
                           else if Az_AccessTier c1 \<noteq> Az_AccessTier other1 then (Inr False, c1)
                           else Az_isSecretEqual c1 other1)))))"

definition Az_checkCredentials :: "deps \<Rightarrow> AzBlobFsConfig \<Rightarrow> panic + error option" where
  "Az_checkCredentials d c =
     pbind (deref (Az_SASURL c)) (\<lambda>sas.
       if IsPlain sas then Inr (url_Parse d (GetPayload sas))
       else if IsEncrypted sas \<and> \<not> IsValid d sas then Inr (Some ErrInvalidEncryptedSASURL)
       else if \<not> IsEmpty sas then Inr None
       else if Az_AccountName c = [] then Inr (Some ErrCredentialsEmptyOrInvalid)
       else pbind (deref (Az_AccountKey c)) (\<lambda>key.
         if \<not> IsValidInput d key then Inr (Some ErrCredentialsEmptyOrInvalid)
         else if IsEncrypted key \<and> \<not> IsValid d key then Inr (Some ErrInvalidEncryptedAccountKey)
         else Inr None))"

definition Az_checkPartSizeAndConcurrency :: "AzBlobFsConfig \<Rightarrow> error option" where
  "Az_checkPartSizeAndConcurrency c =
     (if Az_UploadPartSize c <s 0 \<or> 100 <s Az_UploadPartSize c
      then Some (ErrInvalidUploadPartSize (Az_UploadPartSize c))
      else if Az_UploadConcurrency c <s 0 \<or> 64 <s Az_UploadConcurrency c
      then Some (ErrInvalidUploadConcurrency (Az_UploadConcurrency c))
      else if Az_DownloadPartSize c <s 0 \<or> 100 <s Az_DownloadPartSize c
      then Some (ErrInvalidDownloadPartSize (Az_DownloadPartSize c))
      else if Az_DownloadConcurrency c <s 0 \<or> 64 <s Az_DownloadConcurrency c
      then Some (ErrInvalidUploadConcurrency (Az_DownloadConcurrency c))
      else None)"

definition Az_isSameResource :: "AzBlobFsConfig \<Rightarrow> AzBlobFsConfig \<Rightarrow> panic + bool" where
  "Az_isSameResource c other =
     (if Az_AccountName c \<noteq> Az_AccountName other then Inr False
      else if Az_Endpoint c \<noteq> Az_Endpoint other then Inr False
      else pbind (deref (Az_SASURL c)) (\<lambda>s.
           pbind (deref (Az_SASURL other)) (\<lambda>t. Inr (GetPayload s = GetPayload t))))"

definition Az_validate :: "deps \<Rightarrow> AzBlobFsConfig \<Rightarrow> (panic + error option) \<times> AzBlobFsConfig" where
  "Az_validate d c =
     (let c1 = (if Az_AccountKey c = None then c\<lparr>Az_AccountKey := Some NewEmptySecret\<rparr> else c);
          c2 = (if Az_SASURL c1 = None then c1\<lparr>Az_SASURL := Some NewEmptySecret\<rparr> else c1)
      in case deref (Az_SASURL c2) of
           Inl p \<Rightarrow> (Inl p, c2)
         | Inr sas \<Rightarrow>
            (if IsEmpty sas \<and> Az_Container c2 = [] then (Inr (Some ErrContainerEmpty), c2)
             else (case Az_checkCredentials d c2 of
                     Inl p \<Rightarrow> (Inl p, c2)
                   | Inr (Some err) \<Rightarrow> (Inr (Some err), c2)
                   | Inr None \<Rightarrow>
                      (case validateKeyPrefix (Az_KeyPrefix c2) of
                         Inl err \<Rightarrow> (Inr (Some err), c2)
                       | Inr kp \<Rightarrow>
                          (let c3 = c2\<lparr>Az_KeyPrefix := kp\<rparr>
                           in case Az_checkPartSizeAndConcurrency c3 of
                                Some err \<Rightarrow> (Inr (Some err), c3)
                              | None \<Rightarrow>
                                 (if \<not> List.member validAzAccessTier (Az_AccessTier c3)
                                  then (Inr (Some (ErrInvalidAccessTier (Az_AccessTier c3))), c3)
                                  else (Inr None, c3)))))))"

section \<open>CryptFsConfig\<close>

record CryptFsConfig =
  Crypt_Passphrase :: "Secret option"

definition Crypt_isEqual :: "CryptFsConfig \<Rightarrow> CryptFsConfig \<Rightarrow> (panic + bool) \<times> CryptFsConfig" where
  "Crypt_isEqual c other =
     (let c1 = (if Crypt_Passphrase c = None then c\<lparr>Crypt_Passphrase := Some NewEmptySecret\<rparr> else c);
          other1 = (if Crypt_Passphrase other = None
                    then other\<lparr>Crypt_Passphrase := Some NewEmptySecret\<rparr> else other)
      in (pbind (deref (Crypt_Passphrase c1)) (\<lambda>s.
          pbind (deref (Crypt_Passphrase other1)) (\<lambda>t. Inr (IsEqual s t))), c1))"

definition Crypt_isSameResource :: "CryptFsConfig \<Rightarrow> CryptFsConfig \<Rightarrow> panic + bool" where
  "Crypt_isSameResource c other =
     pbind (deref (Crypt_Passphrase c)) (\<lambda>s.
     pbind (deref (Crypt_Passphrase other)) (\<lambda>t. Inr (GetPayload s = GetPayload t)))"

section \<open>The metadata sweep\<close>

text \<open>
  The sweep talks to the metadata plugin (\<open>plugin.Handler\<close>) and to the storage backend
  (\<open>fs.getFileNamesInPrefix\<close>). Both are outside of package vfs and both have state, so
  each of their operations takes the state \<open>'w\<close> of the outside world and returns its
  result with the new state. A Go result pair \<open>(value, err)\<close> is a sum: the source reads
  the value only when \<open>err\<close> is nil. The map of modification times is an association
  list: its order is the order in which \<open>range\<close> visits the keys.
\<close>

record 'w handler =
  HasMetadater :: "'w \<Rightarrow> bool"
  GetMetadataFolders :: "string \<Rightarrow> string \<Rightarrow> nat \<Rightarrow> 'w \<Rightarrow> (error + string list) \<times> 'w"
  GetModificationTimes :: "string \<Rightarrow> string \<Rightarrow> 'w \<Rightarrow> (error + (string \<times> go_int64) list) \<times> 'w"
  RemoveMetadata :: "string \<Rightarrow> string \<Rightarrow> 'w \<Rightarrow> error option \<times> 'w"
  getFileNamesInPrefix :: "string \<Rightarrow> 'w \<Rightarrow> (error + (string \<rightharpoonup> bool)) \<times> 'w"

text \<open>The messages of \<open>fsLog\<close>, by format string, with their severity.\<close>

datatype log_entry =
    LogUnableToGetFolders error
  | LogSkipFolder string string
  | LogCheckFolder string
  | LogUnableToGetModTimes string error
  | LogNoMetadata string
  | LogUnableToGetContent string error
  | LogUnableToRemove string error
  | LogRemoved string

datatype log_level = LevelDebug | LevelError

fun level_of :: "log_entry \<Rightarrow> log_level" where
  "level_of (LogUnableToGetFolders _) = LevelError"
| "level_of (LogSkipFolder _ _) = LevelDebug"
| "level_of (LogCheckFolder _) = LevelDebug"
| "level_of (LogUnableToGetModTimes _ _) = LevelError"
| "level_of (LogNoMetadata _) = LevelDebug"
| "level_of (LogUnableToGetContent _ _) = LevelError"
| "level_of (LogUnableToRemove _ _) = LevelError"
| "level_of (LogRemoved _) = LevelDebug"

text \<open>
  The state of a sweep: the outside world, the calls of \<open>RemoveMetadata\<close> made so far
  (storage id and path, oldest first) and the log.
\<close>

record 'w sweep_state =
  world :: 'w
  removed :: "(string \<times> string) list"
  logged :: "log_entry list"

definition fsLog :: "log_entry \<Rightarrow> 'w sweep_state \<Rightarrow> 'w sweep_state" where
  "fsLog entry st = st\<lparr>logged := logged st @ [entry]\<rparr>"

text \<open>The loop \<open>for k := range metadataValues\<close> over the keys still to visit.\<close>

fun remove_missing ::
  "'w handler \<Rightarrow> string \<Rightarrow> string \<Rightarrow> (string \<rightharpoonup> bool) \<Rightarrow> string list
     \<Rightarrow> 'w sweep_state \<Rightarrow> 'w sweep_state" where
  "remove_missing h storageID folder fileNames [] st = st"
| "remove_missing h storageID folder fileNames (k # ks) st =
     (if fileNames k = None then
        (let filePath = ensureAbsPath (Join [folder, k]);
             res = RemoveMetadata h storageID filePath (world st);
             st1 = st\<lparr>world := snd res, removed := removed st @ [(storageID, filePath)]\<rparr>;
             st2 = (case fst res of
                      Some err \<Rightarrow> fsLog (LogUnableToRemove filePath err) st1
                    | None \<Rightarrow> fsLog (LogRemoved filePath) st1)
         in remove_missing h storageID folder fileNames ks st2)
      else remove_missing h storageID folder fileNames ks st)"

text \<open>
  The body of the loop \<open>for _, folder := range metadataFolders\<close> after \<open>from = folder\<close>:
  \<open>Some err\<close> is \<open>return err\<close>, \<open>None\<close> is the end of the iteration (also by
  \<open>continue\<close>).
\<close>

definition check_folder ::
  "'w handler \<Rightarrow> string \<Rightarrow> string \<Rightarrow> string \<Rightarrow> 'w sweep_state
     \<Rightarrow> error option \<times> 'w sweep_state" where
  "check_folder h storageID keyPrefix folder st =
     (let fsPrefix = (if \<not> HasSuffix folder ''/'' then folder @ ''/'' else folder)
      in if keyPrefix \<noteq> [] \<and> \<not> HasPrefix fsPrefix (''/'' @ keyPrefix)
         then (None, fsLog (LogSkipFolder folder keyPrefix) st)
         else
           (let st1 = fsLog (LogCheckFolder folder) st;
                res = GetModificationTimes h storageID folder (world st1);
                st2 = st1\<lparr>world := snd res\<rparr>
            in case fst res of
                 Inl err \<Rightarrow> (Some err, fsLog (LogUnableToGetModTimes folder err) st2)
               | Inr metadataValues \<Rightarrow>
                  (if length metadataValues = 0 then (None, fsLog (LogNoMetadata folder) st2)
                   else
                     (let res2 = getFileNamesInPrefix h fsPrefix (world st2);
                          st3 = st2\<lparr>world := snd res2\<rparr>
                      in case fst res2 of
                           Inl err \<Rightarrow> (Some err, fsLog (LogUnableToGetContent fsPrefix err) st3)
                         | Inr fileNames \<Rightarrow>
                            (None, remove_missing h storageID folder fileNames
                                     (map fst metadataValues) st3)))))"

text \<open>
  The loop over the folders of one page. The result is the error that ended the sweep (if
  any), the cursor \<open>from\<close> and the state.
\<close>

fun check_folders ::
  "'w handler \<Rightarrow> string \<Rightarrow> string \<Rightarrow> string list \<Rightarrow> string \<Rightarrow> 'w sweep_state
     \<Rightarrow> error option \<times> string \<times> 'w sweep_state" where
  "check_folders h storageID keyPrefix [] from st = (None, from, st)"
| "check_folders h storageID keyPrefix (folder # rest) from st =
     (case check_folder h storageID keyPrefix folder st of
        (Some err, st1) \<Rightarrow> (Some err, folder, st1)
      | (None, st1) \<Rightarrow> check_folders h storageID keyPrefix rest folder st1)"

text \<open>
  The outer loop \<open>for { ... }\<close> over the pages. It has no bound of its own (a plugin that
  keeps returning full pages keeps it running), so it is a partial function: \<open>None\<close> is
  a sweep that never returns.
\<close>

partial_function (option) sweep_pages ::
  "'w handler \<Rightarrow> string \<Rightarrow> string \<Rightarrow> nat \<Rightarrow> string \<Rightarrow> 'w sweep_state
     \<Rightarrow> (error option \<times> 'w sweep_state) option" where
  "sweep_pages h storageID keyPrefix limit from st =
     (case fst (GetMetadataFolders h storageID from limit (world st)) of
        Inl err \<Rightarrow>
          Some (Some err,
                fsLog (LogUnableToGetFolders err)
                  (st\<lparr>world := snd (GetMetadataFolders h storageID from limit (world st))\<rparr>))
      | Inr metadataFolders \<Rightarrow>
          (case check_folders h storageID keyPrefix metadataFolders from
                  (st\<lparr>world := snd (GetMetadataFolders h storageID from limit (world st))\<rparr>) of
             (Some err, from1, st1) \<Rightarrow> Some (Some err, st1)
           | (None, from1, st1) \<Rightarrow>
               if length metadataFolders < limit then Some (None, st1)
               else sweep_pages h storageID keyPrefix limit from1 st1))"

definition fsMetadataCheck ::
  "'w handler \<Rightarrow> string \<Rightarrow> string \<Rightarrow> 'w sweep_state
     \<Rightarrow> (error option \<times> 'w sweep_state) option" where
  "fsMetadataCheck h storageID keyPrefix st =
     (if \<not> HasMetadater h (world st) then Some (None, st)
      else sweep_pages h storageID keyPrefix 100 [] st)"

section \<open>PipeWriter\<close>

text \<open>
  \<open>p.writer\<close> is a \<open>pipeat.PipeWriterAt\<close>, the writing end of an in-memory pipe of
  package pipeat, which is not part of this repository. What is taken from it here is
  how its \<open>Close\<close> behaves: it marks the writing end as closed (the reader then meets
  the end of the data), and on a synchronous pipe it returns only once the reading end is
  closed; on an asynchronous pipe it returns at once. The reading end is held by the
  uploader, which closes it when it chooses to, or never.
\<close>

record PipeWriterAt =
  sync_writes :: bool
  reader_closed :: bool
  writer_closed :: bool

definition writer_Close_returns :: "PipeWriterAt \<Rightarrow> bool" where
  "writer_Close_returns w = (\<not> sync_writes w \<or> reader_closed w)"

text \<open>
  \<open>Close\<close> runs in the goroutine of the caller and \<open>Done\<close> in the goroutine of the
  uploader; they meet on the unbuffered channel \<open>p.done\<close>. Each goroutine is a program
  counter over the statements of its method, and a step of the system is a step of
  one goroutine, or the rendezvous on the channel: a send on an unbuffered channel and the
  matching receive complete together, and each waits for the other. \<open>Close\<close> is at
  \<open>CloseInWriter\<close> while it is inside \<open>p.writer.Close()\<close>.
\<close>

datatype close_pc =
    CloseCalled
  | CloseInWriter
  | CloseWaiting
  | CloseReceived
  | CloseReturned "error option"

datatype done_pc =
    DoneCalled
  | DoneSending
  | DoneReturned

record PipeWriter =
  writer :: PipeWriterAt
  p_err :: "error option"
  close_at :: close_pc
  done_at :: done_pc

text \<open>
  \<open>NewPipeWriter(w)\<close>, with the two calls about to start: \<open>p.err\<close> (the field
  \<open>p_err\<close>) is nil.
\<close>

definition NewPipeWriter :: "PipeWriterAt \<Rightarrow> PipeWriter" where
  "NewPipeWriter w =
     \<lparr>writer = w, p_err = None, close_at = CloseCalled, done_at = DoneCalled\<rparr>"

text \<open>
  The steps of the two methods possible in a state, when the uploader calls \<open>Done(e)\<close>:
  the call of \<open>p.writer.Close()\<close> and its return (which waits for the pipe),
  \<open>p.err = err\<close>, the rendezvous of \<open><-p.done\<close> with \<open>p.done <- true\<close>, and
  \<open>return p.err\<close>. Then the step of the holder of the reading end, which closes it.
\<close>

definition next_states :: "error option \<Rightarrow> PipeWriter \<Rightarrow> PipeWriter list" where
  "next_states e p =
     (if close_at p = CloseCalled
      then [p\<lparr>writer := (writer p)\<lparr>writer_closed := True\<rparr>, close_at := CloseInWriter\<rparr>]
      else []) @
     (if close_at p = CloseInWriter \<and> writer_Close_returns (writer p)
      then [p\<lparr>close_at := CloseWaiting\<rparr>] else []) @
     (if done_at p = DoneCalled
      then [p\<lparr>p_err := e, done_at := DoneSending\<rparr>] else []) @
     (if close_at p = CloseWaiting \<and> done_at p = DoneSending
      then [p\<lparr>close_at := CloseReceived, done_at := DoneReturned\<rparr>] else []) @
     (if close_at p = CloseReceived
      then [p\<lparr>close_at := CloseReturned (p_err p)\<rparr>] else [])"

definition reader_states :: "PipeWriter \<Rightarrow> PipeWriter list" where
  "reader_states p =
     (if \<not> reader_closed (writer p)
      then [p\<lparr>writer := (writer p)\<lparr>reader_closed := True\<rparr>\<rparr>] else [])"

definition step :: "error option \<Rightarrow> PipeWriter \<Rightarrow> PipeWriter \<Rightarrow> bool" where
  "step e p p' = List.member (next_states e p @ reader_states p) p'"

text \<open>
  How a run can end: \<open>Close\<close> has returned a value, or no step is possible before it
  has (a deadlock), or the run is longer than the bound. \<open>closes\<close> tells whether the
  holder of the reading end closes it in the runs considered.
\<close>

datatype outcome = Returned "error option" | Deadlock | Unfinished

fun runs :: "nat \<Rightarrow> bool \<Rightarrow> error option \<Rightarrow> PipeWriter \<Rightarrow> outcome list" where
  "runs 0 closes e p = [case close_at p of CloseReturned r \<Rightarrow> Returned r | _ \<Rightarrow> Unfinished]"
| "runs (Suc n) closes e p =
     (case next_states e p @ (if closes then reader_states p else []) of
        [] \<Rightarrow> [case close_at p of CloseReturned r \<Rightarrow> Returned r | _ \<Rightarrow> Deadlock]
      | q # qs \<Rightarrow> concat (map (runs n closes e) (q # qs)))"

section \<open>Example values\<close>

text \<open>
  A KMS that accepts every secret and encrypts a plain secret in place, an identity
  \<open>TrimSpace\<close> and a \<open>url.Parse\<close> that never fails.
\<close>

fun example_encrypt :: "Secret \<Rightarrow> error + Secret" where
  "example_encrypt (PlainSecret p ad) = Inr (EncryptedSecret p ad)"
| "example_encrypt s = Inr s"

definition example_deps :: deps where
  "example_deps =
     \<lparr>IsValid = (\<lambda>s. True), IsValidInput = (\<lambda>s. True), Encrypt = example_encrypt,
      TrimSpace = (\<lambda>s. s), url_Parse = (\<lambda>s. None)\<rparr>"

definition example_S3 :: S3FsConfig where
  "example_S3 =
     \<lparr>S3_Bucket = ''b'', S3_KeyPrefix = ''foo/bar'', S3_Region = ''us-east-1'',
      S3_AccessKey = [], S3_RoleARN = [], S3_Endpoint = [], S3_StorageClass = [],
      S3_ACL = [], S3_UploadPartSize = 0, S3_UploadConcurrency = 0,
      S3_DownloadPartSize = 0, S3_DownloadConcurrency = 0, S3_DownloadPartMaxTime = 0,
      S3_UploadPartMaxTime = 0, S3_ForcePathStyle = False, S3_AccessSecret = None\<rparr>"

definition example_GCS :: GCSFsConfig where
  "example_GCS =
     \<lparr>GCS_Bucket = ''b'', GCS_KeyPrefix = ''a/../foo//bar/.'', GCS_AutomaticCredentials = 1,
      GCS_StorageClass = [], GCS_ACL = [], GCS_UploadPartSize = 0,
      GCS_UploadPartMaxTime = 0, GCS_Credentials = Some (PlainSecret ''creds'' [])\<rparr>"

definition example_Az :: AzBlobFsConfig where
  "example_Az =
     \<lparr>Az_Container = ''c'', Az_AccountName = ''a'', Az_Endpoint = [], Az_KeyPrefix = ''..'',
      Az_UploadPartSize = 0, Az_UploadConcurrency = 0, Az_DownloadPartSize = 0,
      Az_DownloadConcurrency = 0, Az_UseEmulator = False, Az_AccessTier = ''Hot'',
      Az_AccountKey = Some (PlainSecret ''key'' []), Az_SASURL = None\<rparr>"

definition example_quota :: QuotaCheckResult where
  "example_quota =
     \<lparr>HasSpace = True, AllowedSize = 70, AllowedFiles = 6, UsedSize = 30, UsedFiles = 4,
      QuotaSize = 100, QuotaFiles = 10\<rparr>"

definition example_Az_SAS :: AzBlobFsConfig where
  "example_Az_SAS = example_Az\<lparr>Az_SASURL := Some (PlainSecret ''https://host/c?sig=x'' [])\<rparr>"

definition example_Crypt :: CryptFsConfig where
  "example_Crypt = \<lparr>Crypt_Passphrase = Some (PlainSecret ''passphrase'' [])\<rparr>"

section \<open>Auxiliary notions\<close>

text \<open>A buffer is unrooted when it does not start with a slash.\<close>

definition unrooted :: "string \<Rightarrow> bool" where
  "unrooted s = (s = [] \<or> hd s \<noteq> CHR ''/'')"

text \<open>
  A plain element of a path is not empty, has no slash and is neither \<open>.\<close> nor
  \<open>..\<close>; \<open>join_slash\<close> puts single slashes between the elements.
\<close>

definition plain_elem :: "string \<Rightarrow> bool" where
  "plain_elem e = (e \<noteq> [] \<and> CHR ''/'' \<notin> set e \<and> e \<noteq> ''.'' \<and> e \<noteq> ''..'')"

fun join_slash :: "string list \<Rightarrow> string" where
  "join_slash [] = []"
| "join_slash [e] = e"
| "join_slash (e # f # es) = e @ ''/'' @ join_slash (f # es)"

text \<open>
  The access secret that \<open>S3FsConfig.validate\<close> checks: a nil \<open>AccessSecret\<close> is
  replaced by the empty secret first.
\<close>

definition S3_secret :: "S3FsConfig \<Rightarrow> Secret" where
  "S3_secret c = (case S3_AccessSecret c of None \<Rightarrow> NewEmptySecret | Some s \<Rightarrow> s)"

section \<open>Notions for the metadata sweep\<close>

text \<open>
  A folder is in the scope of a sweep with key prefix \<open>keyPrefix\<close> when the sweep does
  not skip it: the key prefix is empty, or the folder with its final slash starts with
  \<open>"/" + keyPrefix\<close>.
\<close>

definition in_scope :: "string \<Rightarrow> string \<Rightarrow> bool" where
  "in_scope keyPrefix folder =
     (keyPrefix = [] \<or>
      HasPrefix (if \<not> HasSuffix folder ''/'' then folder @ ''/'' else folder) (''/'' @ keyPrefix))"

text \<open>
  \<open>with_remove_errors f h\<close> is the plugin \<open>h\<close> with the error that
  \<open>RemoveMetadata\<close> returns replaced by \<open>f\<close>; what the call does to the outside
  world stays. The outcome of a sweep is what it returns, the state of the outside
  world and the calls of \<open>RemoveMetadata\<close> it made: all but the log.
\<close>

definition with_remove_errors ::
  "(string \<Rightarrow> string \<Rightarrow> 'w \<Rightarrow> error option) \<Rightarrow> 'w handler \<Rightarrow> 'w handler" where
  "with_remove_errors f h =
     h\<lparr>RemoveMetadata := (\<lambda>storageID filePath w. (f storageID filePath w, snd (RemoveMetadata h storageID filePath w)))\<rparr>"

definition outcome :: "error option \<times> 'w sweep_state \<Rightarrow> error option \<times> 'w \<times> (string \<times> string) list" where
  "outcome r = (fst r, world (snd r), removed (snd r))"

definition same_outcome :: "'w sweep_state \<Rightarrow> 'w sweep_state \<Rightarrow> bool" where
  "same_outcome st st' = (world st = world st' \<and> removed st = removed st')"

text \<open>
  The plugin and backend of the scenario of the spec: the folders \<open>/p/a\<close> and
  \<open>/p/b\<close>, modification times for \<open>x\<close> and \<open>y\<close> under \<open>/p/a\<close>, and a
  backend that lists \<open>x\<close> only. Then one with metadata for \<open>y\<close> in the root folder
  and an empty backend, and variants of the first where one operation fails.
\<close>

definition example_handler :: "unit handler" where
  "example_handler =
     \<lparr>HasMetadater = (\<lambda>w. True),
      GetMetadataFolders = (\<lambda>storageID from limit w. (Inr [''/p/a'', ''/p/b''], w)),
      GetModificationTimes =
        (\<lambda>storageID folder w.
           (Inr (if folder = ''/p/a'' then [(''x'', 1), (''y'', 2)] else []), w)),
      RemoveMetadata = (\<lambda>storageID filePath w. (None, w)),
      getFileNamesInPrefix =
        (\<lambda>fsPrefix w. (Inr (if fsPrefix = ''/p/a/'' then [''x'' \<mapsto> True] else Map.empty), w))\<rparr>"


definition sweep_start :: "unit sweep_state" where
  "sweep_start = \<lparr>world = (), removed = [], logged = []\<rparr>"

definition failing_remove :: "unit handler" where
  "failing_remove =
     with_remove_errors (\<lambda>storageID filePath w. Some (ErrExternal ''remove failed'')) example_handler"

definition failing_folders :: "unit handler" where
  "failing_folders =
     example_handler\<lparr>GetMetadataFolders :=
       (\<lambda>storageID from limit w. (Inl (ErrExternal ''folders failed''), w))\<rparr>"

definition failing_times :: "unit handler" where
  "failing_times =
     example_handler\<lparr>GetModificationTimes :=
       (\<lambda>storageID folder w. (Inl (ErrExternal ''times failed''), w))\<rparr>"

definition failing_listing :: "unit handler" where
  "failing_listing =
     example_handler\<lparr>getFileNamesInPrefix :=
       (\<lambda>fsPrefix w. (Inl (ErrExternal ''listing failed''), w))\<rparr>"





section \<open>Notions for the PipeWriter\<close>







section \<open>Properties of the path functions\<close>

text \<open>
  The model of \<open>path.Clean\<close> and \<open>path.Join\<close> on the table of the tests of package
  path (\<open>cleantests\<close> and \<open>jointests\<close>).
\<close>

lemma Clean_test_table:
  "map Clean ['''', ''abc'', ''abc/def'', ''a/b/c'', ''.'', ''..'', ''../..'', ''../../abc'', ''/abc'', ''/'',
     ''abc/'', ''abc/def/'', ''a/b/c/'', ''./'', ''../'', ''../../'', ''/abc/'',
     ''abc//def//ghi'', ''//abc'', ''///abc'', ''//abc//'', ''abc//'',
     ''abc/./def'', ''/./abc/def'', ''abc/.'',
     ''abc/def/ghi/../jkl'', ''abc/def/../ghi/../jkl'', ''abc/def/..'', ''abc/def/../..'', ''/abc/def/../..'',
     ''abc/def/../../..'', ''/abc/def/../../..'', ''abc/def/../../../ghi/jkl/../../../mno'',
     ''abc/./../def'', ''abc//./../def'', ''abc/../../././../def'']
   = [''.'', ''abc'', ''abc/def'', ''a/b/c'', ''.'', ''..'', ''../..'', ''../../abc'', ''/abc'', ''/'',
     ''abc'', ''abc/def'', ''a/b/c'', ''.'', ''..'', ''../..'', ''/abc'',
     ''abc/def/ghi'', ''/abc'', ''/abc'', ''/abc'', ''abc'',
     ''abc/def'', ''/abc/def'', ''abc'',
     ''abc/def/jkl'', ''abc/jkl'', ''abc'', ''.'', ''/'',
     ''..'', ''/'', ''../../mno'',
     ''def'', ''def'', ''../../def'']"
  by code_simp

lemma Join_test_table:
  "map Join [[], [''''], [''a''], [''a'', ''b''], [''a'', ''''], ['''', ''b''], [''/'', ''a''], [''/'', ''''],
     [''a/'', ''b''], [''a/'', ''''], ['''', '''']]
   = ['''', '''', ''a'', ''a/b'', ''a'', ''b'', ''/a'', ''/'', ''a/b'', ''a'', '''']"
  by code_simp

lemma unrooted_take: "unrooted s \<Longrightarrow> unrooted (take n s)"
  by (cases s; cases n) (auto simp: unrooted_def)

text \<open>
  On a path that is not rooted the loop of \<open>Clean\<close> never writes a leading slash: the
  buffer only shrinks to a prefix, grows by \<open>..\<close>, or grows by an element that starts
  with another byte.
\<close>

lemma clean_loop_unrooted:
  "\<not> rooted \<Longrightarrow> unrooted out \<Longrightarrow> unrooted (clean_loop rooted p out dotdot)"
proof (induction rooted p out dotdot rule: clean_loop.induct)
  case (1 rooted p out dotdot)
  note nr = \<open>\<not> rooted\<close>
  note uo = \<open>unrooted out\<close>
  show ?case
  proof (cases "p = []")
    case True
    then show ?thesis using uo by (subst clean_loop.simps) simp
  next
    case ne: False
    show ?thesis
    proof (cases "hd p = CHR ''/''")
      case True
      have "clean_loop rooted p out dotdot = clean_loop rooted (tl p) out dotdot"
        by (subst clean_loop.simps) (simp only: ne True [THEN eqTrueI] if_False if_True)
      then show ?thesis using "1.IH"(1) [OF ne True nr uo] by simp
    next
      case nslash: False
      show ?thesis
      proof (cases "hd p = CHR ''.'' \<and> (tl p = [] \<or> hd (tl p) = CHR ''/'')")
        case True
        have "clean_loop rooted p out dotdot = clean_loop rooted (tl p) out dotdot"
          by (subst clean_loop.simps) (simp only: ne nslash True [THEN eqTrueI] if_False if_True)
        then show ?thesis using "1.IH"(2) [OF ne nslash True nr uo] by simp
      next
        case ndot: False
        show ?thesis
        proof (cases "hd p = CHR ''.'' \<and> hd (tl p) = CHR ''.''
              \<and> (tl (tl p) = [] \<or> hd (tl (tl p)) = CHR ''/'')")
          case dd: True
          show ?thesis
          proof (cases "dotdot < length out")
            case bt: True
            have u: "unrooted (take (dotdot_backtrack out dotdot (length out - 1)) out)"
              using uo by (rule unrooted_take)
            have "clean_loop rooted p out dotdot =
                  clean_loop rooted (tl (tl p))
                    (take (dotdot_backtrack out dotdot (length out - 1)) out) dotdot"
              by (subst clean_loop.simps)
                (simp only: ne nslash ndot dd [THEN eqTrueI] bt [THEN eqTrueI] if_False if_True)
            then show ?thesis using "1.IH"(3) [OF ne nslash ndot dd bt nr u] by simp
          next
            case nbt: False
            have u: "unrooted ((if 0 < length out then out @ ''/'' else out) @ ''..'')"
              using uo by (auto simp: unrooted_def hd_append)
            have "clean_loop rooted p out dotdot =
                  clean_loop rooted (tl (tl p))
                    ((if 0 < length out then out @ ''/'' else out) @ ''..'')
                    (length ((if 0 < length out then out @ ''/'' else out) @ ''..''))"
              by (subst clean_loop.simps)
                (simp only: ne nslash ndot dd [THEN eqTrueI] nbt nr [THEN eqTrueI] if_False if_True)
            then show ?thesis using "1.IH"(4) [OF ne nslash ndot dd nbt nr nr u] by simp
          qed
        next
          case real: False
          have tw: "takeWhile (\<lambda>c. c \<noteq> CHR ''/'') p \<noteq> []"
            using ne nslash by (cases p) auto
          have hd_tw: "hd (takeWhile (\<lambda>c. c \<noteq> CHR ''/'') p) \<noteq> CHR ''/''"
            using ne nslash by (cases p) auto
          have u: "unrooted ((if rooted \<and> length out \<noteq> 1 \<or> \<not> rooted \<and> length out \<noteq> 0
            then out @ ''/'' else out) @ takeWhile (\<lambda>c. c \<noteq> CHR ''/'') p)"
            using uo nr tw hd_tw by (auto simp: unrooted_def hd_append)
          have "clean_loop rooted p out dotdot =
                clean_loop rooted (dropWhile (\<lambda>c. c \<noteq> CHR ''/'') p)
                  ((if rooted \<and> length out \<noteq> 1 \<or> \<not> rooted \<and> length out \<noteq> 0
                    then out @ ''/'' else out) @ takeWhile (\<lambda>c. c \<noteq> CHR ''/'') p)
                  dotdot"
            by (subst clean_loop.simps) (simp only: ne nslash ndot real if_False if_True)
          then show ?thesis using "1.IH"(6) [OF ne nslash ndot real nr u] by simp
        qed
      qed
    qed
  qed
qed

lemma Clean_unrooted:
  assumes "p \<noteq> []" "hd p \<noteq> CHR ''/''"
  shows "Clean p \<noteq> [] \<and> hd (Clean p) \<noteq> CHR ''/''"
proof -
  have "unrooted (clean_loop False p [] 0)"
    by (rule clean_loop_unrooted) (simp_all add: unrooted_def)
  then show ?thesis using assms
    by (auto simp: Clean_def unrooted_def Let_def)
qed

lemma validateKeyPrefix_ok:
  assumes "validateKeyPrefix kp = Inr k"
  shows "k = [] \<or> (\<not> HasPrefix k ''/'' \<and> HasSuffix k ''/'')"
proof (cases "kp = []")
  case True
  then show ?thesis using assms by (simp add: validateKeyPrefix_def)
next
  case False
  then have np: "\<not> HasPrefix kp ''/''" and
    k: "k = (if \<not> HasSuffix (Clean kp) ''/'' then Clean kp @ ''/'' else Clean kp)"
    using assms by (auto simp: validateKeyPrefix_def split: if_splits)
  from np False have "hd kp \<noteq> CHR ''/''"
    by (cases kp) (auto simp: HasPrefix_def)
  with False have c: "Clean kp \<noteq> []" "hd (Clean kp) \<noteq> CHR ''/''"
    using Clean_unrooted by blast+
  have "\<not> HasPrefix k ''/''"
    using c k by (cases "Clean kp") (auto simp: HasPrefix_def)
  moreover have "HasSuffix k ''/''"
    using k by (auto simp: HasSuffix_def)
  ultimately show ?thesis by simp
qed

section \<open>Properties of the configurations\<close>

lemma S3_validate_key_prefix:
  assumes "fst (S3_validate d c) = Inr None"
  shows "S3_KeyPrefix (snd (S3_validate d c)) = []
         \<or> (\<not> HasPrefix (S3_KeyPrefix (snd (S3_validate d c))) ''/''
            \<and> HasSuffix (S3_KeyPrefix (snd (S3_validate d c))) ''/'')"
proof -
  define c1 where
    "c1 = (if S3_AccessSecret c = None then c\<lparr>S3_AccessSecret := Some NewEmptySecret\<rparr> else c)"
  from assms obtain kp where kp: "validateKeyPrefix (S3_KeyPrefix c1) = Inr kp"
    and r: "S3_KeyPrefix (snd (S3_validate d c)) = kp"
    unfolding S3_validate_def c1_def [symmetric]
    by (auto simp: Let_def split: if_splits sum.splits option.splits)
  from validateKeyPrefix_ok [OF kp] r show ?thesis by simp
qed

lemma GCS_validate_key_prefix:
  assumes "fst (GCS_validate d c) = Inr None"
  shows "GCS_KeyPrefix (snd (GCS_validate d c)) = []
         \<or> (\<not> HasPrefix (GCS_KeyPrefix (snd (GCS_validate d c))) ''/''
            \<and> HasSuffix (GCS_KeyPrefix (snd (GCS_validate d c))) ''/'')"
proof -
  define c1 where
    "c1 = (if GCS_Credentials c = None \<or> GCS_AutomaticCredentials c = 1
           then c\<lparr>GCS_Credentials := Some NewEmptySecret\<rparr> else c)"
  from assms obtain kp where kp: "validateKeyPrefix (GCS_KeyPrefix c1) = Inr kp"
    and r: "GCS_KeyPrefix (snd (GCS_validate d c)) = kp"
    unfolding GCS_validate_def c1_def [symmetric]
    by (auto simp: Let_def split: if_splits sum.splits option.splits)
  from validateKeyPrefix_ok [OF kp] r show ?thesis by simp
qed

lemma Az_validate_key_prefix:
  assumes "fst (Az_validate d c) = Inr None"
  shows "Az_KeyPrefix (snd (Az_validate d c)) = []
         \<or> (\<not> HasPrefix (Az_KeyPrefix (snd (Az_validate d c))) ''/''
            \<and> HasSuffix (Az_KeyPrefix (snd (Az_validate d c))) ''/'')"
proof -
  define c2 where
    "c2 = (let c1 = (if Az_AccountKey c = None
                     then c\<lparr>Az_AccountKey := Some NewEmptySecret\<rparr> else c)
           in if Az_SASURL c1 = None then c1\<lparr>Az_SASURL := Some NewEmptySecret\<rparr> else c1)"
  have v: "Az_validate d c =
     (case deref (Az_SASURL c2) of
           Inl p \<Rightarrow> (Inl p, c2)
         | Inr sas \<Rightarrow>
            (if IsEmpty sas \<and> Az_Container c2 = [] then (Inr (Some ErrContainerEmpty), c2)
             else (case Az_checkCredentials d c2 of
                     Inl p \<Rightarrow> (Inl p, c2)
                   | Inr (Some err) \<Rightarrow> (Inr (Some err), c2)
                   | Inr None \<Rightarrow>
                      (case validateKeyPrefix (Az_KeyPrefix c2) of
                         Inl err \<Rightarrow> (Inr (Some err), c2)
                       | Inr kp \<Rightarrow>
                          (let c3 = c2\<lparr>Az_KeyPrefix := kp\<rparr>
                           in case Az_checkPartSizeAndConcurrency c3 of
                                Some err \<Rightarrow> (Inr (Some err), c3)
                              | None \<Rightarrow>
                                 (if \<not> List.member validAzAccessTier (Az_AccessTier c3)
                                  then (Inr (Some (ErrInvalidAccessTier (Az_AccessTier c3))), c3)
                                  else (Inr None, c3)))))))"
    unfolding Az_validate_def c2_def Let_def ..
  from assms obtain kp where kp: "validateKeyPrefix (Az_KeyPrefix c2) = Inr kp"
    and r: "Az_KeyPrefix (snd (Az_validate d c)) = kp"
    unfolding v
    by (auto simp: Let_def split: if_splits sum.splits option.splits)
  from validateKeyPrefix_ok [OF kp] r show ?thesis by simp
qed

text \<open>
  C2. Whenever \<open>validate\<close> of an S3FsConfig, a GCSFsConfig or an AzBlobFsConfig returns
  nil, the key prefix of the configuration it leaves is empty, or it does not start
  with a slash and it ends with a slash.
\<close>

theorem validate_key_prefix:
  "(fst (S3_validate d s3) = Inr None \<longrightarrow>
      S3_KeyPrefix (snd (S3_validate d s3)) = []
      \<or> (\<not> HasPrefix (S3_KeyPrefix (snd (S3_validate d s3))) ''/''
         \<and> HasSuffix (S3_KeyPrefix (snd (S3_validate d s3))) ''/''))
   \<and> (fst (GCS_validate d gcs) = Inr None \<longrightarrow>
      GCS_KeyPrefix (snd (GCS_validate d gcs)) = []
      \<or> (\<not> HasPrefix (GCS_KeyPrefix (snd (GCS_validate d gcs))) ''/''
         \<and> HasSuffix (GCS_KeyPrefix (snd (GCS_validate d gcs))) ''/''))
   \<and> (fst (Az_validate d az) = Inr None \<longrightarrow>
      Az_KeyPrefix (snd (Az_validate d az)) = []
      \<or> (\<not> HasPrefix (Az_KeyPrefix (snd (Az_validate d az))) ''/''
         \<and> HasSuffix (Az_KeyPrefix (snd (Az_validate d az))) ''/''))"
  using S3_validate_key_prefix [of d s3] GCS_validate_key_prefix [of d gcs]
    Az_validate_key_prefix [of d az]
  by blast

lemma example_S3_validate:
  "S3_validate example_deps example_S3 =
     (Inr None, example_S3\<lparr>S3_KeyPrefix := ''foo/bar/'', S3_AccessSecret := Some EmptySecret\<rparr>)"
  by code_simp

lemma example_GCS_validate:
  "GCS_validate example_deps example_GCS =
     (Inr None, example_GCS\<lparr>GCS_KeyPrefix := ''foo/bar/'', GCS_Credentials := Some EmptySecret\<rparr>)"
  by code_simp

lemma example_Az_validate:
  "Az_validate example_deps example_Az =
     (Inr None, example_Az\<lparr>Az_KeyPrefix := ''../'', Az_SASURL := Some EmptySecret\<rparr>)"
  by code_simp

theorem validate_key_prefix_witness:
  "fst (S3_validate example_deps example_S3) = Inr None
   \<and> fst (GCS_validate example_deps example_GCS) = Inr None
   \<and> fst (Az_validate example_deps example_Az) = Inr None
   \<and> (S3_KeyPrefix (snd (S3_validate example_deps example_S3)) = []
      \<or> (\<not> HasPrefix (S3_KeyPrefix (snd (S3_validate example_deps example_S3))) ''/''
         \<and> HasSuffix (S3_KeyPrefix (snd (S3_validate example_deps example_S3))) ''/''))
   \<and> (GCS_KeyPrefix (snd (GCS_validate example_deps example_GCS)) = []
      \<or> (\<not> HasPrefix (GCS_KeyPrefix (snd (GCS_validate example_deps example_GCS))) ''/''
         \<and> HasSuffix (GCS_KeyPrefix (snd (GCS_validate example_deps example_GCS))) ''/''))
   \<and> (Az_KeyPrefix (snd (Az_validate example_deps example_Az)) = []
      \<or> (\<not> HasPrefix (Az_KeyPrefix (snd (Az_validate example_deps example_Az))) ''/''
         \<and> HasSuffix (Az_KeyPrefix (snd (Az_validate example_deps example_Az))) ''/''))"
proof -
  have s3: "fst (S3_validate example_deps example_S3) = Inr None"
    by (simp add: example_S3_validate)
  have gcs: "fst (GCS_validate example_deps example_GCS) = Inr None"
    by (simp add: example_GCS_validate)
  have az: "fst (Az_validate example_deps example_Az) = Inr None"
    by (simp add: example_Az_validate)
  show ?thesis
    using s3 gcs az validate_key_prefix [of example_deps example_S3 example_GCS example_Az]
    by blast
qed

section \<open>Properties of the helpers\<close>

lemma isEqualityCheckModeValid_always: "isEqualityCheckModeValid mode"
  unfolding isEqualityCheckModeValid_def word_sle_eq by simp linarith

text \<open>
  C5. The claim is that \<open>isEqualityCheckModeValid\<close> accepts the modes 0 and 1 and no
  other. The source tests \<open>mode >= 0 || mode <= 1\<close>, which every integer satisfies: the
  mode 2 is accepted.
\<close>

theorem isEqualityCheckModeValid_accepts_2:
  "isEqualityCheckModeValid 2 \<and> (2 :: go_int) \<noteq> 0 \<and> (2 :: go_int) \<noteq> 1"
  by (simp add: isEqualityCheckModeValid_def word_sle_eq)

section \<open>Properties of QuotaCheckResult\<close>

text \<open>
  With a positive quota and a usage that is not negative, the subtraction of
  \<open>GetRemainingSize\<close> does not wrap around.
\<close>

lemma sint_sub_no_wrap:
  fixes a b :: "64 word"
  assumes "0 <s a" "0 \<le>s b"
  shows "sint (a - b) = sint a - sint b"
proof -
  have a: "0 < sint a" using assms(1) by (simp add: word_sless_alt)
  have b: "0 \<le> sint b" using assms(2) by (simp add: word_sle_eq)
  have ua: "sint a < 2 ^ 63" using sint_lt [of a] by simp
  have ub: "sint b < 2 ^ 63" using sint_lt [of b] by simp
  have "sint (a - b) = signed_take_bit 63 (sint a - sint b)"
    by (simp add: sint_word_ariths)
  also have "\<dots> = sint a - sint b"
    using a b ua ub by (intro signed_take_bit_int_eq_self) auto
  finally show ?thesis .
qed

text \<open>
  C9. \<open>GetRemainingSize\<close> is \<open>QuotaSize - UsedSize\<close> when \<open>QuotaSize > 0\<close> and 0
  otherwise, \<open>GetRemainingFiles\<close> follows the same pattern, and with a positive quota the
  remaining size plus the used size is the quota (and so for the files). The equations
  hold in the arithmetic of the source, which wraps around; with a usage that is not
  negative nothing wraps and they hold for the integers read from the fields.
\<close>

theorem GetRemaining_spec:
  "GetRemainingSize q = (if 0 <s QuotaSize q then QuotaSize q - UsedSize q else 0)
   \<and> GetRemainingFiles q = (if 0 <s QuotaFiles q then QuotaFiles q - UsedFiles q else 0)
   \<and> (0 <s QuotaSize q \<longrightarrow> GetRemainingSize q + UsedSize q = QuotaSize q)
   \<and> (0 <s QuotaFiles q \<longrightarrow> GetRemainingFiles q + UsedFiles q = QuotaFiles q)
   \<and> (0 <s QuotaSize q \<and> 0 \<le>s UsedSize q \<longrightarrow>
        sint (GetRemainingSize q) + sint (UsedSize q) = sint (QuotaSize q))
   \<and> (0 <s QuotaFiles q \<and> 0 \<le>s UsedFiles q \<longrightarrow>
        sint (GetRemainingFiles q) + sint (UsedFiles q) = sint (QuotaFiles q))"
  by (simp add: GetRemainingSize_def GetRemainingFiles_def sint_sub_no_wrap)

theorem GetRemaining_spec_witness:
  "0 <s QuotaSize example_quota \<and> 0 \<le>s UsedSize example_quota
   \<and> 0 <s QuotaFiles example_quota \<and> 0 \<le>s UsedFiles example_quota
   \<and> GetRemainingSize example_quota = 70
   \<and> GetRemainingFiles example_quota = 6
   \<and> GetRemainingSize example_quota + UsedSize example_quota = QuotaSize example_quota
   \<and> GetRemainingFiles example_quota + UsedFiles example_quota = QuotaFiles example_quota
   \<and> sint (GetRemainingSize example_quota) + sint (UsedSize example_quota)
       = sint (QuotaSize example_quota)
   \<and> sint (GetRemainingFiles example_quota) + sint (UsedFiles example_quota)
       = sint (QuotaFiles example_quota)"
proof -
  have pos: "0 <s QuotaSize example_quota" "0 \<le>s UsedSize example_quota"
    "0 <s QuotaFiles example_quota" "0 \<le>s UsedFiles example_quota"
    by (simp_all add: example_quota_def word_sless_alt word_sle_eq)
  have v: "QuotaSize example_quota - UsedSize example_quota = 70"
    "QuotaFiles example_quota - UsedFiles example_quota = 6"
    by (simp_all add: example_quota_def)
  note spec = GetRemaining_spec [of example_quota]
  from spec have "GetRemainingSize example_quota =
      (if 0 <s QuotaSize example_quota
       then QuotaSize example_quota - UsedSize example_quota else 0)"
    by blast
  with pos v have size: "GetRemainingSize example_quota = 70"
    by simp
  from spec have "GetRemainingFiles example_quota =
      (if 0 <s QuotaFiles example_quota
       then QuotaFiles example_quota - UsedFiles example_quota else 0)"
    by blast
  with pos v have files: "GetRemainingFiles example_quota = 6"
    by simp
  show ?thesis
    using pos size files spec by blast
qed

section \<open>Properties of ensureAbsPath\<close>

lemma clean_loop_Nil: "clean_loop rooted [] out dotdot = out"
  by (subst clean_loop.simps) simp

lemma clean_loop_slash: "clean_loop rooted (CHR ''/'' # p) out dotdot = clean_loop rooted p out dotdot"
  by (subst clean_loop.simps) simp

lemma clean_loop_plain_elem:
  assumes e: "plain_elem e" and rest: "rest = [] \<or> hd rest = CHR ''/''"
  shows "clean_loop rooted (e @ rest) out dotdot =
         clean_loop rooted rest
           ((if rooted \<and> length out \<noteq> 1 \<or> \<not> rooted \<and> length out \<noteq> 0
             then out @ ''/'' else out) @ e) dotdot"
proof -
  from e obtain c e' where ec: "e = c # e'" and c: "c \<noteq> CHR ''/''"
    and ns: "\<forall>x \<in> set e. x \<noteq> CHR ''/''"
    by (cases e) (auto simp: plain_elem_def)
  have ne: "e @ rest \<noteq> []" using ec by simp
  have nslash: "hd (e @ rest) \<noteq> CHR ''/''" using ec c by simp
  have ndot: "\<not> (hd (e @ rest) = CHR ''.'' \<and> (tl (e @ rest) = [] \<or> hd (tl (e @ rest)) = CHR ''/''))"
  proof
    assume a: "hd (e @ rest) = CHR ''.'' \<and> (tl (e @ rest) = [] \<or> hd (tl (e @ rest)) = CHR ''/'')"
    then have "c = CHR ''.''" using ec by simp
    with e ec have "e' \<noteq> []" by (auto simp: plain_elem_def)
    then obtain c' e'' where e': "e' = c' # e''" by (cases e') auto
    with ns ec have "c' \<noteq> CHR ''/''" by auto
    with a ec e' show False by simp
  qed
  have nddot: "\<not> (hd (e @ rest) = CHR ''.'' \<and> hd (tl (e @ rest)) = CHR ''.''
              \<and> (tl (tl (e @ rest)) = [] \<or> hd (tl (tl (e @ rest))) = CHR ''/''))"
  proof
    assume a: "hd (e @ rest) = CHR ''.'' \<and> hd (tl (e @ rest)) = CHR ''.''
              \<and> (tl (tl (e @ rest)) = [] \<or> hd (tl (tl (e @ rest))) = CHR ''/'')"
    then have c1: "c = CHR ''.''" using ec by simp
    with e ec have "e' \<noteq> []" by (auto simp: plain_elem_def)
    then obtain c' e'' where e': "e' = c' # e''" by (cases e') auto
    with a ec have c2: "c' = CHR ''.''" by simp
    with e ec e' c1 have "e'' \<noteq> []" by (auto simp: plain_elem_def)
    then obtain c'' e''' where e'': "e'' = c'' # e'''" by (cases e'') auto
    with ns ec e' have "c'' \<noteq> CHR ''/''" by auto
    with a ec e' e'' show False by simp
  qed
  have tr: "takeWhile (\<lambda>c. c \<noteq> CHR ''/'') rest = []" "dropWhile (\<lambda>c. c \<noteq> CHR ''/'') rest = rest"
    using rest by (cases rest; auto)+
  have tw: "takeWhile (\<lambda>c. c \<noteq> CHR ''/'') (e @ rest) = e"
    using ns tr by (simp add: takeWhile_append2)
  have dw: "dropWhile (\<lambda>c. c \<noteq> CHR ''/'') (e @ rest) = rest"
    using ns tr by (simp add: dropWhile_append2)
  show ?thesis
    by (subst clean_loop.simps) (simp only: ne nslash ndot nddot if_False if_True tw dw)
qed

lemma clean_loop_plain:
  assumes "list_all plain_elem es" "out \<noteq> []"
  shows "clean_loop True (join_slash es) out dotdot =
         (if es = [] then out
          else (if length out \<noteq> 1 then out @ ''/'' else out) @ join_slash es)"
  using assms
proof (induction es arbitrary: out rule: join_slash.induct)
  case 1
  then show ?case by (simp add: clean_loop_Nil)
next
  case (2 e)
  then have "plain_elem e" by simp
  from clean_loop_plain_elem [OF this, of "[]" True out dotdot]
  show ?case by (simp add: clean_loop_Nil)
next
  case (3 e f es)
  then have e: "plain_elem e" and es: "list_all plain_elem (f # es)" by simp_all
  let ?out = "(if length out \<noteq> 1 then out @ ''/'' else out) @ e"
  have ne: "?out \<noteq> []" using "3.prems" by simp
  have len: "length ?out \<noteq> 1" using "3.prems" e
    by (cases out; cases e) (auto simp: plain_elem_def)
  have "clean_loop True (join_slash (e # f # es)) out dotdot =
        clean_loop True (CHR ''/'' # join_slash (f # es)) ?out dotdot"
    using clean_loop_plain_elem [OF e, of "CHR ''/'' # join_slash (f # es)" True out dotdot]
    by simp
  also have "\<dots> = clean_loop True (join_slash (f # es)) ?out dotdot"
    by (rule clean_loop_slash)
  also have "\<dots> = (if length ?out \<noteq> 1 then ?out @ ''/'' else ?out) @ join_slash (f # es)"
    using "3.IH" [OF es ne] by simp
  finally show ?case using len by simp
qed

lemma Join_root: "Join [''/'', name] = Clean (''/'' @ name)"
proof -
  have "Join [''/'', name] = Clean (''//'' @ name)"
    by (simp add: Join_def)
  also have "\<dots> = Clean (''/'' @ name)"
    by (simp add: Clean_def Let_def clean_loop_slash)
  finally show ?thesis .
qed

lemma ensureAbsPath_plain:
  assumes "list_all plain_elem es"
  shows "ensureAbsPath (join_slash es) = ''/'' @ join_slash es"
proof (cases es)
  case Nil
  then show ?thesis
    by (simp add: ensureAbsPath_def IsAbs_def Join_root Clean_def clean_loop_Nil)
next
  case (Cons e es')
  with assms have "plain_elem e" by simp
  then have "hd (join_slash es) \<noteq> CHR ''/''" "join_slash es \<noteq> []"
    using Cons by (cases es'; cases e; auto simp: plain_elem_def)+
  then have na: "\<not> IsAbs (join_slash es)" by (simp add: IsAbs_def)
  have "Clean (''/'' @ join_slash es) = ''/'' @ join_slash es"
    using clean_loop_plain [OF assms, of "''/''" 1] Cons
    by (simp add: Clean_def Let_def)
  then show ?thesis using na by (simp add: ensureAbsPath_def Join_root)
qed

text \<open>
  C6, amended. \<open>ensureAbsPath name\<close> is \<open>name\<close> itself when \<open>name\<close> starts with a
  slash; otherwise it is \<open>path.Join("/", name)\<close>, the cleaned path of \<open>"/" + name\<close>,
  and that is \<open>"/" + name\<close> when \<open>name\<close> is empty or is made of elements other
  than \<open>.\<close> and \<open>..\<close>, none empty, separated by single slashes.
\<close>

theorem ensureAbsPath_spec:
  "ensureAbsPath name = (if HasPrefix name ''/'' then name else Clean (''/'' @ name))
   \<and> (list_all plain_elem es \<longrightarrow> ensureAbsPath (join_slash es) = ''/'' @ join_slash es)"
proof -
  have "IsAbs name = HasPrefix name ''/''"
    by (cases name) (auto simp: IsAbs_def HasPrefix_def)
  then show ?thesis
    using ensureAbsPath_plain [of es] by (simp add: ensureAbsPath_def Join_root)
qed

text \<open>
  C6 as stated fails where cleaning changes the path: a relative name with a trailing
  slash loses it.
\<close>

theorem ensureAbsPath_counterexample:
  "\<not> HasPrefix ''dir/'' ''/'' \<and> ensureAbsPath ''dir/'' = ''/dir''
   \<and> ensureAbsPath ''dir/'' \<noteq> ''/'' @ ''dir/''"
  by code_simp

theorem ensureAbsPath_spec_witness:
  "list_all plain_elem [''p'', ''a'', ''y.txt''] \<and> join_slash [''p'', ''a'', ''y.txt''] = ''p/a/y.txt''
   \<and> ensureAbsPath ''p/a/y.txt'' = ''/p/a/y.txt''
   \<and> ensureAbsPath ''/p/a/'' = ''/p/a/''"
proof -
  have p: "list_all plain_elem [''p'', ''a'', ''y.txt'']"
    by (simp add: plain_elem_def)
  have j: "join_slash [''p'', ''a'', ''y.txt''] = ''p/a/y.txt''" by simp
  have h: "HasPrefix ''/p/a/'' ''/''" by (simp add: HasPrefix_def)
  from ensureAbsPath_spec [of "''/p/a/''" "[''p'', ''a'', ''y.txt'']"] p j h
  show ?thesis by simp
qed

section \<open>Equality and same resource\<close>

lemma S3_isEqual_bucket:
  assumes "fst (S3_isEqual a b) = Inr True"
  shows "S3_Bucket a = S3_Bucket b \<and> S3_Endpoint a = S3_Endpoint b \<and> S3_Region a = S3_Region b
    \<and> S3_Bucket (snd (S3_isEqual a b)) = S3_Bucket a
    \<and> S3_Endpoint (snd (S3_isEqual a b)) = S3_Endpoint a
    \<and> S3_Region (snd (S3_isEqual a b)) = S3_Region a"
  using assms
  by (auto simp: S3_isEqual_def S3_isSecretEqual_def Let_def split: if_splits)

lemma S3_equal_same:
  assumes "fst (S3_isEqual a b) = Inr True"
  shows "S3_isSameResource a b \<and> S3_isSameResource (snd (S3_isEqual a b)) b"
  using S3_isEqual_bucket [OF assms] by (simp add: S3_isSameResource_def)

lemma GCS_equal_same:
  assumes "fst (GCS_isEqual a b) = Inr True"
  shows "GCS_isSameResource a b \<and> GCS_isSameResource (snd (GCS_isEqual a b)) b"
  using assms
  by (auto simp: GCS_isEqual_def GCS_isSameResource_def Let_def split: if_splits)

lemma pbind_Inr: "pbind m f = Inr v \<longleftrightarrow> (\<exists>x. m = Inr x \<and> f x = Inr v)"
  by (cases m) (auto simp: pbind_def)

lemma deref_Inr: "deref p = Inr s \<longleftrightarrow> p = Some s"
  by (cases p) (auto simp: deref_def)

lemma Az_isSecretEqual_snd:
  "Az_AccountName (snd (Az_isSecretEqual c other)) = Az_AccountName c
   \<and> Az_Endpoint (snd (Az_isSecretEqual c other)) = Az_Endpoint c
   \<and> Az_SASURL (snd (Az_isSecretEqual c other)) = Az_SASURL c"
  by (simp add: Az_isSecretEqual_def Let_def)

lemma Az_isEqual_facts:
  assumes "fst (Az_isEqual a b) = Inr True"
  shows "Az_AccountName a = Az_AccountName b \<and> Az_Endpoint a = Az_Endpoint b
    \<and> (\<exists>s. Az_SASURL a = Some s \<and> Az_SASURL b = Some s)
    \<and> Az_AccountName (snd (Az_isEqual a b)) = Az_AccountName a
    \<and> Az_Endpoint (snd (Az_isEqual a b)) = Az_Endpoint a
    \<and> Az_SASURL (snd (Az_isEqual a b)) = Az_SASURL a"
proof -
  from assms have n: "Az_AccountName a = Az_AccountName b" and e: "Az_Endpoint a = Az_Endpoint b"
    and c: "Az_Container a = Az_Container b"
    by (auto simp: Az_isEqual_def split: if_splits)
  from assms n e c obtain s0 where s0: "Az_SASURL a = Some s0"
    by (cases "Az_SASURL a") (auto simp: Az_isEqual_def deref_def)
  from assms n e c s0 obtain t0 where t0: "Az_SASURL b = Some t0"
    by (cases "Az_SASURL b") (auto simp: Az_isEqual_def deref_def Let_def)
  have em: "\<And>s. IsEmpty s \<Longrightarrow> s = EmptySecret"
    by (case_tac s) simp_all
  from assms n e c s0 t0 have eq: "s0 = t0"
    by (auto simp: Az_isEqual_def deref_def Let_def pbind_def IsEqual_def NewEmptySecret_def
        dest: em split: if_splits)
  from assms n e c s0 t0 eq have
    "Az_AccountName (snd (Az_isEqual a b)) = Az_AccountName a
    \<and> Az_Endpoint (snd (Az_isEqual a b)) = Az_Endpoint a
    \<and> Az_SASURL (snd (Az_isEqual a b)) = Az_SASURL a"
    by (auto simp: Az_isEqual_def deref_def Let_def pbind_def IsEqual_def NewEmptySecret_def
        Az_isSecretEqual_snd dest: em split: if_splits)
  with n e s0 t0 eq show ?thesis by simp
qed

lemma Az_equal_same:
  assumes "fst (Az_isEqual a b) = Inr True"
  shows "Az_isSameResource a b = Inr True \<and> Az_isSameResource (snd (Az_isEqual a b)) b = Inr True"
  using Az_isEqual_facts [OF assms]
  by (auto simp: Az_isSameResource_def pbind_def deref_def)

lemma Crypt_equal_same:
  assumes "fst (Crypt_isEqual a b) = Inr True" and "Crypt_Passphrase b \<noteq> None"
  shows "Crypt_isSameResource (snd (Crypt_isEqual a b)) b = Inr True
     \<and> (Crypt_Passphrase a \<noteq> None \<longrightarrow> Crypt_isSameResource a b = Inr True)"
  using assms
  by (auto simp: Crypt_isEqual_def Crypt_isSameResource_def Let_def pbind_def deref_def IsEqual_def
      split: if_splits)

text \<open>
  C7, amended. For a pair of S3FsConfig, of GCSFsConfig and of AzBlobFsConfig: if
  \<open>a.isEqual(b)\<close> returns true then \<open>a.isSameResource(b)\<close> returns true, for the
  receiver as it was before \<open>isEqual\<close> and as \<open>isEqual\<close> leaves it. For a pair of
  CryptFsConfig it does when the passphrase of \<open>b\<close> is not nil (for the receiver as
  \<open>isEqual\<close> leaves it, and for the receiver as it was when its passphrase is not nil
  either).
\<close>

theorem isEqual_isSameResource:
  "(fst (S3_isEqual s3 s3') = Inr True \<longrightarrow>
      S3_isSameResource s3 s3' \<and> S3_isSameResource (snd (S3_isEqual s3 s3')) s3')
   \<and> (fst (GCS_isEqual gcs gcs') = Inr True \<longrightarrow>
      GCS_isSameResource gcs gcs' \<and> GCS_isSameResource (snd (GCS_isEqual gcs gcs')) gcs')
   \<and> (fst (Az_isEqual az az') = Inr True \<longrightarrow>
      Az_isSameResource az az' = Inr True
      \<and> Az_isSameResource (snd (Az_isEqual az az')) az' = Inr True)
   \<and> (fst (Crypt_isEqual cr cr') = Inr True \<and> Crypt_Passphrase cr' \<noteq> None \<longrightarrow>
      Crypt_isSameResource (snd (Crypt_isEqual cr cr')) cr' = Inr True
      \<and> (Crypt_Passphrase cr \<noteq> None \<longrightarrow> Crypt_isSameResource cr cr' = Inr True))"
  using S3_equal_same [of s3 s3'] GCS_equal_same [of gcs gcs'] Az_equal_same [of az az']
    Crypt_equal_same [of cr cr']
  by blast

text \<open>
  C7 as stated fails on a pair of CryptFsConfig with nil passphrases: \<open>isEqual\<close> takes
  nil for the empty secret and returns true, \<open>isSameResource\<close> calls \<open>GetPayload\<close>
  through the nil pointer of \<open>other\<close>, which \<open>isEqual\<close> only replaced in its own
  copy.
\<close>

theorem isEqual_isSameResource_counterexample:
  "fst (Crypt_isEqual \<lparr>Crypt_Passphrase = None\<rparr> \<lparr>Crypt_Passphrase = None\<rparr>) = Inr True
   \<and> Crypt_isSameResource \<lparr>Crypt_Passphrase = None\<rparr> \<lparr>Crypt_Passphrase = None\<rparr>
       = Inl NilDereference
   \<and> Crypt_isSameResource
        (snd (Crypt_isEqual \<lparr>Crypt_Passphrase = None\<rparr> \<lparr>Crypt_Passphrase = None\<rparr>))
        \<lparr>Crypt_Passphrase = None\<rparr> = Inl NilDereference"
  by (simp add: Crypt_isEqual_def Crypt_isSameResource_def Let_def pbind_def deref_def IsEqual_def)

theorem isEqual_isSameResource_witness:
  "fst (S3_isEqual example_S3 example_S3) = Inr True
   \<and> S3_isSameResource example_S3 example_S3
   \<and> S3_isSameResource (snd (S3_isEqual example_S3 example_S3)) example_S3
   \<and> fst (GCS_isEqual example_GCS example_GCS) = Inr True
   \<and> GCS_isSameResource example_GCS example_GCS
   \<and> GCS_isSameResource (snd (GCS_isEqual example_GCS example_GCS)) example_GCS
   \<and> fst (Az_isEqual example_Az_SAS example_Az_SAS) = Inr True
   \<and> Az_isSameResource example_Az_SAS example_Az_SAS = Inr True
   \<and> Az_isSameResource (snd (Az_isEqual example_Az_SAS example_Az_SAS)) example_Az_SAS = Inr True
   \<and> fst (Crypt_isEqual \<lparr>Crypt_Passphrase = None\<rparr> \<lparr>Crypt_Passphrase = Some EmptySecret\<rparr>)
       = Inr True
   \<and> Crypt_Passphrase \<lparr>Crypt_Passphrase = Some EmptySecret\<rparr> \<noteq> None
   \<and> Crypt_isSameResource
        (snd (Crypt_isEqual \<lparr>Crypt_Passphrase = None\<rparr> \<lparr>Crypt_Passphrase = Some EmptySecret\<rparr>))
        \<lparr>Crypt_Passphrase = Some EmptySecret\<rparr> = Inr True
   \<and> fst (Crypt_isEqual example_Crypt example_Crypt) = Inr True
   \<and> Crypt_Passphrase example_Crypt \<noteq> None
   \<and> Crypt_isSameResource example_Crypt example_Crypt = Inr True"
proof -
  have s3: "fst (S3_isEqual example_S3 example_S3) = Inr True"
    by code_simp
  have gcs: "fst (GCS_isEqual example_GCS example_GCS) = Inr True"
    by code_simp
  have az: "fst (Az_isEqual example_Az_SAS example_Az_SAS) = Inr True"
    by code_simp
  have cr1: "fst (Crypt_isEqual \<lparr>Crypt_Passphrase = None\<rparr> \<lparr>Crypt_Passphrase = Some EmptySecret\<rparr>)
       = Inr True"
    by code_simp
  have cr2: "fst (Crypt_isEqual example_Crypt example_Crypt) = Inr True"
    by code_simp
  have n1: "Crypt_Passphrase \<lparr>Crypt_Passphrase = Some EmptySecret\<rparr> \<noteq> None"
    by simp
  have n2: "Crypt_Passphrase example_Crypt \<noteq> None"
    by (simp add: example_Crypt_def)
  note a = isEqual_isSameResource [of example_S3 example_S3 example_GCS example_GCS
      example_Az_SAS example_Az_SAS "\<lparr>Crypt_Passphrase = None\<rparr>"
      "\<lparr>Crypt_Passphrase = Some EmptySecret\<rparr>"]
  note b = isEqual_isSameResource [of example_S3 example_S3 example_GCS example_GCS
      example_Az_SAS example_Az_SAS example_Crypt example_Crypt]
  show ?thesis
    using s3 gcs az cr1 cr2 n1 n2 a b by blast
qed

section \<open>Credentials\<close>

lemma S3_checkCredentials_materialised:
  "S3_checkCredentials d (c\<lparr>S3_AccessSecret := Some s\<rparr>) =
     Inr (if S3_AccessKey c = [] \<and> \<not> IsEmpty s then Some ErrAccessKeyEmpty
          else if IsEmpty s \<and> S3_AccessKey c \<noteq> [] then Some ErrAccessSecretEmpty
          else if IsEncrypted s \<and> \<not> IsValid d s then Some ErrInvalidEncryptedAccessSecret
          else if \<not> IsEmpty s \<and> \<not> IsValidInput d s then Some ErrInvalidAccessSecret
          else None)"
  by (simp add: S3_checkCredentials_def pbind_def deref_def)

lemma S3_materialise:
  "(if S3_AccessSecret c = None then c\<lparr>S3_AccessSecret := Some NewEmptySecret\<rparr> else c)
     = c\<lparr>S3_AccessSecret := Some (S3_secret c)\<rparr>"
  by (cases "S3_AccessSecret c") (simp_all add: S3_secret_def)

lemma S3_checkPartSize_cong:
  "S3_checkPartSizeAndConcurrency
     (c\<lparr>S3_AccessSecret := a, S3_KeyPrefix := k, S3_StorageClass := sc, S3_ACL := acl\<rparr>)
   = S3_checkPartSizeAndConcurrency c"
  by (simp add: S3_checkPartSizeAndConcurrency_def)

lemma S3_validate_after_credentials:
  assumes "S3_Bucket c \<noteq> []" "S3_Endpoint c \<noteq> [] \<or> S3_Region c \<noteq> []"
  shows "fst (S3_validate d c) =
     (case S3_checkCredentials d (c\<lparr>S3_AccessSecret := Some (S3_secret c)\<rparr>) of
        Inl p \<Rightarrow> Inl p
      | Inr (Some err) \<Rightarrow> Inr (Some err)
      | Inr None \<Rightarrow>
         (case validateKeyPrefix (S3_KeyPrefix c) of
            Inl err \<Rightarrow> Inr (Some err)
          | Inr kp \<Rightarrow> Inr (S3_checkPartSizeAndConcurrency c)))"
  using assms unfolding S3_validate_def S3_materialise
  by (auto simp: Let_def S3_checkPartSize_cong split: sum.splits option.splits)

lemma S3_ValidateAndEncryptCredentials_error:
  assumes "fst (S3_validate d c) = Inr (Some err)"
  shows "fst (S3_ValidateAndEncryptCredentials d additionalData c)
           = Inr (Some (ValidationS3Config err))"
  using assms
  by (cases "S3_validate d c") (simp add: S3_ValidateAndEncryptCredentials_def)

text \<open>
  C8. For an S3FsConfig with a bucket and a region, with a nil access secret counted as
  the empty secret that \<open>validate\<close> puts in its place: \<open>validate\<close> fails when the
  access key is empty and the access secret is not, and when the access secret is empty
  and the access key is not (and \<open>ValidateAndEncryptCredentials\<close> returns the error
  wrapped as a validation error); when both are empty, or both are not and the secret is
  valid where it is encrypted and is a valid input, \<open>checkCredentials\<close> returns nil
  and \<open>validate\<close> goes on to the key prefix and the part sizes.
\<close>

theorem S3_credential_coupling:
  "S3_Bucket c \<noteq> [] \<and> S3_Region c \<noteq> [] \<longrightarrow>
     (S3_AccessKey c = [] \<and> \<not> IsEmpty (S3_secret c) \<longrightarrow>
        fst (S3_validate d c) = Inr (Some ErrAccessKeyEmpty)
        \<and> fst (S3_ValidateAndEncryptCredentials d additionalData c)
            = Inr (Some (ValidationS3Config ErrAccessKeyEmpty)))
   \<and> (S3_AccessKey c \<noteq> [] \<and> IsEmpty (S3_secret c) \<longrightarrow>
        fst (S3_validate d c) = Inr (Some ErrAccessSecretEmpty)
        \<and> fst (S3_ValidateAndEncryptCredentials d additionalData c)
            = Inr (Some (ValidationS3Config ErrAccessSecretEmpty)))
   \<and> ((S3_AccessKey c = [] \<and> IsEmpty (S3_secret c))
       \<or> (S3_AccessKey c \<noteq> [] \<and> \<not> IsEmpty (S3_secret c)
           \<and> (IsEncrypted (S3_secret c) \<longrightarrow> IsValid d (S3_secret c))
           \<and> IsValidInput d (S3_secret c)) \<longrightarrow>
        S3_checkCredentials d (c\<lparr>S3_AccessSecret := Some (S3_secret c)\<rparr>) = Inr None
        \<and> fst (S3_validate d c) =
            (case validateKeyPrefix (S3_KeyPrefix c) of
               Inl err \<Rightarrow> Inr (Some err)
             | Inr kp \<Rightarrow> Inr (S3_checkPartSizeAndConcurrency c)))"
proof (intro impI)
  assume a: "S3_Bucket c \<noteq> [] \<and> S3_Region c \<noteq> []"
  then have v: "fst (S3_validate d c) =
     (case S3_checkCredentials d (c\<lparr>S3_AccessSecret := Some (S3_secret c)\<rparr>) of
        Inl p \<Rightarrow> Inl p
      | Inr (Some err) \<Rightarrow> Inr (Some err)
      | Inr None \<Rightarrow>
         (case validateKeyPrefix (S3_KeyPrefix c) of
            Inl err \<Rightarrow> Inr (Some err)
          | Inr kp \<Rightarrow> Inr (S3_checkPartSizeAndConcurrency c)))"
    by (intro S3_validate_after_credentials) simp_all
  have e: "IsEmpty (S3_secret c) \<Longrightarrow> \<not> IsEncrypted (S3_secret c)"
    by (cases "S3_secret c") simp_all
  have 1: "S3_AccessKey c = [] \<and> \<not> IsEmpty (S3_secret c) \<longrightarrow>
        fst (S3_validate d c) = Inr (Some ErrAccessKeyEmpty)"
    unfolding v S3_checkCredentials_materialised by simp
  have 2: "S3_AccessKey c \<noteq> [] \<and> IsEmpty (S3_secret c) \<longrightarrow>
        fst (S3_validate d c) = Inr (Some ErrAccessSecretEmpty)"
    unfolding v S3_checkCredentials_materialised by simp
  have 3: "(S3_AccessKey c = [] \<and> IsEmpty (S3_secret c))
       \<or> (S3_AccessKey c \<noteq> [] \<and> \<not> IsEmpty (S3_secret c)
           \<and> (IsEncrypted (S3_secret c) \<longrightarrow> IsValid d (S3_secret c))
           \<and> IsValidInput d (S3_secret c)) \<longrightarrow>
        S3_checkCredentials d (c\<lparr>S3_AccessSecret := Some (S3_secret c)\<rparr>) = Inr None
        \<and> fst (S3_validate d c) =
            (case validateKeyPrefix (S3_KeyPrefix c) of
               Inl err \<Rightarrow> Inr (Some err)
             | Inr kp \<Rightarrow> Inr (S3_checkPartSizeAndConcurrency c))"
    unfolding v S3_checkCredentials_materialised using e by auto
  show "(S3_AccessKey c = [] \<and> \<not> IsEmpty (S3_secret c) \<longrightarrow>
        fst (S3_validate d c) = Inr (Some ErrAccessKeyEmpty)
        \<and> fst (S3_ValidateAndEncryptCredentials d additionalData c)
            = Inr (Some (ValidationS3Config ErrAccessKeyEmpty)))
   \<and> (S3_AccessKey c \<noteq> [] \<and> IsEmpty (S3_secret c) \<longrightarrow>
        fst (S3_validate d c) = Inr (Some ErrAccessSecretEmpty)
        \<and> fst (S3_ValidateAndEncryptCredentials d additionalData c)
            = Inr (Some (ValidationS3Config ErrAccessSecretEmpty)))
   \<and> ((S3_AccessKey c = [] \<and> IsEmpty (S3_secret c))
       \<or> (S3_AccessKey c \<noteq> [] \<and> \<not> IsEmpty (S3_secret c)
           \<and> (IsEncrypted (S3_secret c) \<longrightarrow> IsValid d (S3_secret c))
           \<and> IsValidInput d (S3_secret c)) \<longrightarrow>
        S3_checkCredentials d (c\<lparr>S3_AccessSecret := Some (S3_secret c)\<rparr>) = Inr None
        \<and> fst (S3_validate d c) =
            (case validateKeyPrefix (S3_KeyPrefix c) of
               Inl err \<Rightarrow> Inr (Some err)
             | Inr kp \<Rightarrow> Inr (S3_checkPartSizeAndConcurrency c)))"
    using 1 2 3 S3_ValidateAndEncryptCredentials_error [of d c _ additionalData] by blast
qed

theorem S3_credential_coupling_witness:
  "S3_Bucket example_S3 \<noteq> [] \<and> S3_Region example_S3 \<noteq> []
   \<and> S3_AccessKey (example_S3\<lparr>S3_AccessSecret := Some (PlainSecret ''secret'' [])\<rparr>) = []
   \<and> \<not> IsEmpty (S3_secret (example_S3\<lparr>S3_AccessSecret := Some (PlainSecret ''secret'' [])\<rparr>))
   \<and> fst (S3_validate example_deps
             (example_S3\<lparr>S3_AccessSecret := Some (PlainSecret ''secret'' [])\<rparr>))
       = Inr (Some ErrAccessKeyEmpty)
   \<and> S3_AccessKey (example_S3\<lparr>S3_AccessKey := ''AKIA''\<rparr>) \<noteq> []
   \<and> IsEmpty (S3_secret (example_S3\<lparr>S3_AccessKey := ''AKIA''\<rparr>))
   \<and> fst (S3_validate example_deps (example_S3\<lparr>S3_AccessKey := ''AKIA''\<rparr>))
       = Inr (Some ErrAccessSecretEmpty)
   \<and> fst (S3_ValidateAndEncryptCredentials example_deps ''user''
             (example_S3\<lparr>S3_AccessKey := ''AKIA''\<rparr>))
       = Inr (Some (ValidationS3Config ErrAccessSecretEmpty))
   \<and> S3_AccessKey example_S3 = [] \<and> IsEmpty (S3_secret example_S3)
   \<and> S3_checkCredentials example_deps (example_S3\<lparr>S3_AccessSecret := Some (S3_secret example_S3)\<rparr>)
       = Inr None
   \<and> fst (S3_validate example_deps example_S3) = Inr None
   \<and> S3_AccessKey (example_S3\<lparr>S3_AccessKey := ''AKIA'',
                                S3_AccessSecret := Some (PlainSecret ''secret'' [])\<rparr>) \<noteq> []
   \<and> \<not> IsEmpty (S3_secret (example_S3\<lparr>S3_AccessKey := ''AKIA'',
                                S3_AccessSecret := Some (PlainSecret ''secret'' [])\<rparr>))
   \<and> IsValidInput example_deps (PlainSecret ''secret'' [])
   \<and> fst (S3_validate example_deps
             (example_S3\<lparr>S3_AccessKey := ''AKIA'',
                         S3_AccessSecret := Some (PlainSecret ''secret'' [])\<rparr>)) = Inr None"
proof -
  let ?secret_only = "example_S3\<lparr>S3_AccessSecret := Some (PlainSecret ''secret'' [])\<rparr>"
  let ?key_only = "example_S3\<lparr>S3_AccessKey := ''AKIA''\<rparr>"
  let ?both = "example_S3\<lparr>S3_AccessKey := ''AKIA'',
                          S3_AccessSecret := Some (PlainSecret ''secret'' [])\<rparr>"
  have pre: "S3_Bucket example_S3 \<noteq> [] \<and> S3_Region example_S3 \<noteq> []"
    "S3_Bucket ?secret_only \<noteq> [] \<and> S3_Region ?secret_only \<noteq> []"
    "S3_Bucket ?key_only \<noteq> [] \<and> S3_Region ?key_only \<noteq> []"
    "S3_Bucket ?both \<noteq> [] \<and> S3_Region ?both \<noteq> []"
    by (simp_all add: example_S3_def)
  have k: "S3_AccessKey ?secret_only = []" "S3_AccessKey ?key_only \<noteq> []"
    "S3_AccessKey example_S3 = []" "S3_AccessKey ?both \<noteq> []"
    by (simp_all add: example_S3_def)
  have s: "\<not> IsEmpty (S3_secret ?secret_only)" "IsEmpty (S3_secret ?key_only)"
    "IsEmpty (S3_secret example_S3)" "\<not> IsEmpty (S3_secret ?both)"
    "S3_secret ?both = PlainSecret ''secret'' []"
    by (simp_all add: example_S3_def S3_secret_def NewEmptySecret_def)
  have v: "IsValidInput example_deps (PlainSecret ''secret'' [])"
    "\<not> IsEncrypted (PlainSecret ''secret'' [])"
    by (simp_all add: example_deps_def)
  have rest: "(case validateKeyPrefix (S3_KeyPrefix example_S3) of
               Inl err \<Rightarrow> Inr (Some err)
             | Inr kp \<Rightarrow> Inr (S3_checkPartSizeAndConcurrency example_S3))
           = (Inr None :: panic + error option)"
    by code_simp
  have rest_both: "(case validateKeyPrefix (S3_KeyPrefix ?both) of
               Inl err \<Rightarrow> Inr (Some err)
             | Inr kp \<Rightarrow> Inr (S3_checkPartSizeAndConcurrency ?both))
           = (Inr None :: panic + error option)"
    by code_simp
  have 1: "fst (S3_validate example_deps ?secret_only) = Inr (Some ErrAccessKeyEmpty)"
    using S3_credential_coupling [of ?secret_only example_deps "''user''"] pre(2) k(1) s(1)
    by blast
  have 2: "fst (S3_validate example_deps ?key_only) = Inr (Some ErrAccessSecretEmpty)"
    "fst (S3_ValidateAndEncryptCredentials example_deps ''user'' ?key_only)
       = Inr (Some (ValidationS3Config ErrAccessSecretEmpty))"
    using S3_credential_coupling [of ?key_only example_deps "''user''"] pre(3) k(2) s(2)
    by blast+
  have 3: "S3_checkCredentials example_deps
             (example_S3\<lparr>S3_AccessSecret := Some (S3_secret example_S3)\<rparr>) = Inr None
           \<and> fst (S3_validate example_deps example_S3) =
             (case validateKeyPrefix (S3_KeyPrefix example_S3) of
               Inl err \<Rightarrow> Inr (Some err)
             | Inr kp \<Rightarrow> Inr (S3_checkPartSizeAndConcurrency example_S3))"
    using S3_credential_coupling [of example_S3 example_deps "''user''"] pre(1) k(3) s(3)
    by blast
  have 4: "fst (S3_validate example_deps ?both) =
             (case validateKeyPrefix (S3_KeyPrefix ?both) of
               Inl err \<Rightarrow> Inr (Some err)
             | Inr kp \<Rightarrow> Inr (S3_checkPartSizeAndConcurrency ?both))"
    using S3_credential_coupling [of ?both example_deps "''user''"] pre(4) k(4) s(4) s(5) v
    by auto
  show ?thesis
    using pre(1) k s(1-4) v(1) 1 2 3 4 rest rest_both by simp
qed

lemma GCS_validate_keeps_automatic:
  "GCS_AutomaticCredentials (snd (GCS_validate d c)) = GCS_AutomaticCredentials c"
  by (auto simp: GCS_validate_def Let_def split: sum.splits option.splits if_splits)

lemma GCS_validate_automatic:
  assumes "GCS_AutomaticCredentials c = 1"
  shows "GCS_Credentials (snd (GCS_validate d c)) = Some NewEmptySecret"
  using assms
  by (auto simp: GCS_validate_def Let_def deref_def split: sum.splits option.splits if_splits)

lemma GCS_encrypt_automatic:
  assumes "GCS_AutomaticCredentials c = 1"
  shows "GCS_Credentials (fst (snd (GCS_ValidateAndEncryptCredentials d ad c))) = Some NewEmptySecret
     \<and> snd (snd (GCS_ValidateAndEncryptCredentials d ad c)) = 0"
proof -
  obtain r c1 where v: "GCS_validate d c = (r, c1)" by (cases "GCS_validate d c")
  with GCS_validate_automatic [OF assms, of d] have c1: "GCS_Credentials c1 = Some NewEmptySecret"
    by simp
  show ?thesis
    unfolding GCS_ValidateAndEncryptCredentials_def v
    using c1 by (auto simp: deref_def NewEmptySecret_def split: sum.splits option.splits)
qed

text \<open>
  C10. For a GCSFsConfig with \<open>AutomaticCredentials == 1\<close>, \<open>validate\<close> leaves the
  empty secret in \<open>Credentials\<close>, whatever was there and whether it returns an error or
  not, and \<open>ValidateAndEncryptCredentials\<close> (called after it, or in its place) makes no
  call of \<open>Encrypt\<close> and leaves the empty secret too.
\<close>

theorem GCS_automatic_credentials:
  "GCS_AutomaticCredentials c = 1 \<longrightarrow>
     GCS_Credentials (snd (GCS_validate d c)) = Some NewEmptySecret
   \<and> GCS_Credentials (fst (snd (GCS_ValidateAndEncryptCredentials d ad (snd (GCS_validate d c)))))
       = Some NewEmptySecret
   \<and> snd (snd (GCS_ValidateAndEncryptCredentials d ad (snd (GCS_validate d c)))) = 0
   \<and> GCS_Credentials (fst (snd (GCS_ValidateAndEncryptCredentials d ad c))) = Some NewEmptySecret
   \<and> snd (snd (GCS_ValidateAndEncryptCredentials d ad c)) = 0"
proof
  assume a: "GCS_AutomaticCredentials c = 1"
  then have a': "GCS_AutomaticCredentials (snd (GCS_validate d c)) = 1"
    by (simp add: GCS_validate_keeps_automatic)
  show "GCS_Credentials (snd (GCS_validate d c)) = Some NewEmptySecret
   \<and> GCS_Credentials (fst (snd (GCS_ValidateAndEncryptCredentials d ad (snd (GCS_validate d c)))))
       = Some NewEmptySecret
   \<and> snd (snd (GCS_ValidateAndEncryptCredentials d ad (snd (GCS_validate d c)))) = 0
   \<and> GCS_Credentials (fst (snd (GCS_ValidateAndEncryptCredentials d ad c))) = Some NewEmptySecret
   \<and> snd (snd (GCS_ValidateAndEncryptCredentials d ad c)) = 0"
    using GCS_validate_automatic [OF a, of d] GCS_encrypt_automatic [OF a, of d ad]
      GCS_encrypt_automatic [OF a', of d ad]
    by simp
qed

theorem GCS_automatic_credentials_witness:
  "GCS_AutomaticCredentials example_GCS = 1
   \<and> GCS_Credentials example_GCS = Some (PlainSecret ''creds'' [])
   \<and> GCS_Credentials (snd (GCS_validate example_deps example_GCS)) = Some NewEmptySecret
   \<and> snd (snd (GCS_ValidateAndEncryptCredentials example_deps ''user''
                   (snd (GCS_validate example_deps example_GCS)))) = 0
   \<and> GCS_AutomaticCredentials (example_GCS\<lparr>GCS_Bucket := []\<rparr>) = 1
   \<and> fst (GCS_validate example_deps (example_GCS\<lparr>GCS_Bucket := []\<rparr>)) = Inr (Some ErrBucketEmpty)
   \<and> GCS_Credentials (snd (GCS_validate example_deps (example_GCS\<lparr>GCS_Bucket := []\<rparr>)))
       = Some NewEmptySecret"
proof -
  have a: "GCS_AutomaticCredentials example_GCS = 1"
    "GCS_AutomaticCredentials (example_GCS\<lparr>GCS_Bucket := []\<rparr>) = 1"
    "GCS_Credentials example_GCS = Some (PlainSecret ''creds'' [])"
    by (simp_all add: example_GCS_def)
  have f: "fst (GCS_validate example_deps (example_GCS\<lparr>GCS_Bucket := []\<rparr>))
       = Inr (Some ErrBucketEmpty)"
    by code_simp
  show ?thesis
    using a f GCS_automatic_credentials [of example_GCS example_deps "''user''"]
      GCS_automatic_credentials [of "example_GCS\<lparr>GCS_Bucket := []\<rparr>" example_deps "''user''"]
    by simp
qed

section \<open>Properties of the metadata sweep\<close>

declare sweep_pages.simps [code]

lemma fsLog_fields [simp]:
  "world (fsLog e st) = world st" "removed (fsLog e st) = removed st"
  "logged (fsLog e st) = logged st @ [e]"
  by (simp_all add: fsLog_def)

lemma same_outcome_fsLog [simp]:
  "same_outcome (fsLog e st) st' = same_outcome st st'"
  "same_outcome st (fsLog e st') = same_outcome st st'"
  by (simp_all add: same_outcome_def)

lemma same_outcome_world:
  "same_outcome st st' \<Longrightarrow> same_outcome (st\<lparr>world := w\<rparr>) (st'\<lparr>world := w\<rparr>)"
  by (simp add: same_outcome_def)

lemma remove_missing_agree:
  assumes ag: "\<And>sid p w. snd (RemoveMetadata h1 sid p w) = snd (RemoveMetadata h2 sid p w)"
    and "same_outcome st1 st2"
  shows "same_outcome (remove_missing h1 sid folder fileNames ks st1)
                      (remove_missing h2 sid folder fileNames ks st2)"
  using assms(2)
proof (induction ks arbitrary: st1 st2)
  case Nil
  then show ?case by simp
next
  case (Cons k ks)
  show ?case
  proof (cases "fileNames k = None")
    case False
    have "remove_missing h sid folder fileNames (k # ks) st =
          remove_missing h sid folder fileNames ks st" for h :: "'a handler" and st
      by (simp only: remove_missing.simps False if_False)
    then show ?thesis using Cons.IH [OF Cons.prems] by simp
  next
    case True
    define p where "p = ensureAbsPath (Join [folder, k])"
    define next_state where "next_state = (\<lambda>(h :: 'a handler) st.
       case fst (RemoveMetadata h sid p (world st)) of
         Some err \<Rightarrow> fsLog (LogUnableToRemove p err)
            (st\<lparr>world := snd (RemoveMetadata h sid p (world st)),
                 removed := removed st @ [(sid, p)]\<rparr>)
       | None \<Rightarrow> fsLog (LogRemoved p)
            (st\<lparr>world := snd (RemoveMetadata h sid p (world st)),
                 removed := removed st @ [(sid, p)]\<rparr>))"
    have step: "remove_missing h sid folder fileNames (k # ks) st =
          remove_missing h sid folder fileNames ks (next_state h st)" for h st
      unfolding next_state_def p_def using True by (simp add: Let_def)
    have w: "world st1 = world st2" "removed st1 = removed st2"
      using Cons.prems by (simp_all add: same_outcome_def)
    have "same_outcome (next_state h1 st1) (next_state h2 st2)"
      using w ag [of sid p "world st2"]
      by (auto simp: next_state_def same_outcome_def split: option.splits)
    from Cons.IH [OF this] show ?thesis
      by (simp only: step)
  qed
qed

lemma check_folder_agree:
  assumes ag: "\<And>sid p w. snd (RemoveMetadata h1 sid p w) = snd (RemoveMetadata h2 sid p w)"
    and mt: "GetModificationTimes h1 = GetModificationTimes h2"
    and fn: "getFileNamesInPrefix h1 = getFileNamesInPrefix h2"
    and so: "same_outcome st1 st2"
  shows "fst (check_folder h1 sid kp folder st1) = fst (check_folder h2 sid kp folder st2)
     \<and> same_outcome (snd (check_folder h1 sid kp folder st1))
                     (snd (check_folder h2 sid kp folder st2))"
proof -
  have w: "world st1 = world st2" using so by (simp add: same_outcome_def)
  define fsPrefix where "fsPrefix = (if \<not> HasSuffix folder ''/'' then folder @ ''/'' else folder)"
  define res where "res = GetModificationTimes h2 sid folder (world st2)"
  define res2 where "res2 = getFileNamesInPrefix h2 fsPrefix (snd res)"
  have so2: "same_outcome (fsLog (LogCheckFolder folder) st1\<lparr>world := x\<rparr>)
                          (fsLog (LogCheckFolder folder) st2\<lparr>world := x\<rparr>)" for x
    using so by (simp add: same_outcome_def)
  have so3: "same_outcome (fsLog (LogCheckFolder folder) st1\<lparr>world := x, world := y\<rparr>)
                          (fsLog (LogCheckFolder folder) st2\<lparr>world := x, world := y\<rparr>)" for x y
    using so by (simp add: same_outcome_def)
  have cf: "check_folder h sid kp folder st =
     (if kp \<noteq> [] \<and> \<not> HasPrefix fsPrefix (''/'' @ kp)
      then (None, fsLog (LogSkipFolder folder kp) st)
      else
        (case fst (GetModificationTimes h sid folder (world st)) of
           Inl err \<Rightarrow>
             (Some err, fsLog (LogUnableToGetModTimes folder err)
                (fsLog (LogCheckFolder folder) st
                   \<lparr>world := snd (GetModificationTimes h sid folder (world st))\<rparr>))
         | Inr mv \<Rightarrow>
             if length mv = 0
             then (None, fsLog (LogNoMetadata folder)
                (fsLog (LogCheckFolder folder) st
                   \<lparr>world := snd (GetModificationTimes h sid folder (world st))\<rparr>))
             else
               (case fst (getFileNamesInPrefix h fsPrefix
                            (snd (GetModificationTimes h sid folder (world st)))) of
                  Inl err \<Rightarrow>
                    (Some err, fsLog (LogUnableToGetContent fsPrefix err)
                       (fsLog (LogCheckFolder folder) st
                          \<lparr>world := snd (GetModificationTimes h sid folder (world st)),
                            world := snd (getFileNamesInPrefix h fsPrefix
                                       (snd (GetModificationTimes h sid folder (world st))))\<rparr>))
                | Inr fileNames \<Rightarrow>
                    (None, remove_missing h sid folder fileNames (map fst mv)
                       (fsLog (LogCheckFolder folder) st
                          \<lparr>world := snd (GetModificationTimes h sid folder (world st)),
                            world := snd (getFileNamesInPrefix h fsPrefix
                                       (snd (GetModificationTimes h sid folder (world st))))\<rparr>)))))"
    for h :: "'a handler" and st
    unfolding check_folder_def Let_def fsPrefix_def by (simp split: sum.splits)
  show ?thesis
    unfolding cf mt fn w
    using so so2 so3 remove_missing_agree [OF ag so3]
    by (simp split: sum.splits)
qed

lemma check_folders_agree:
  assumes ag: "\<And>sid p w. snd (RemoveMetadata h1 sid p w) = snd (RemoveMetadata h2 sid p w)"
    and mt: "GetModificationTimes h1 = GetModificationTimes h2"
    and fn: "getFileNamesInPrefix h1 = getFileNamesInPrefix h2"
    and so: "same_outcome st1 st2"
  shows "fst (check_folders h1 sid kp folders from st1) = fst (check_folders h2 sid kp folders from st2)
     \<and> fst (snd (check_folders h1 sid kp folders from st1))
         = fst (snd (check_folders h2 sid kp folders from st2))
     \<and> same_outcome (snd (snd (check_folders h1 sid kp folders from st1)))
                     (snd (snd (check_folders h2 sid kp folders from st2)))"
  using so
proof (induction folders arbitrary: "from" st1 st2)
  case Nil
  then show ?case by simp
next
  case (Cons folder rest)
  obtain r1 s1 where c1: "check_folder h1 sid kp folder st1 = (r1, s1)"
    by (cases "check_folder h1 sid kp folder st1")
  obtain r2 s2 where c2: "check_folder h2 sid kp folder st2 = (r2, s2)"
    by (cases "check_folder h2 sid kp folder st2")
  from check_folder_agree [OF ag mt fn Cons.prems, of sid kp folder] c1 c2
  have r: "r1 = r2" and s: "same_outcome s1 s2" by simp_all
  show ?case
  proof (cases r1)
    case None
    then show ?thesis using c1 c2 r Cons.IH [OF s, of folder] by simp
  next
    case (Some err)
    then show ?thesis using c1 c2 r s by simp
  qed
qed

lemma sweep_pages_agree_aux:
  fixes h1 h2 :: "'w handler"
  assumes run: "sweep_pages h1 sid kp limit from st1 = Some y"
  shows "(\<forall>sid p w. snd (RemoveMetadata h1 sid p w) = snd (RemoveMetadata h2 sid p w)) \<longrightarrow>
     GetMetadataFolders h1 = GetMetadataFolders h2 \<longrightarrow>
     GetModificationTimes h1 = GetModificationTimes h2 \<longrightarrow>
     getFileNamesInPrefix h1 = getFileNamesInPrefix h2 \<longrightarrow>
     (\<forall>st2. same_outcome st1 st2 \<longrightarrow>
        (\<exists>s2. sweep_pages h2 sid kp limit from st2 = Some (fst y, s2) \<and> same_outcome (snd y) s2))"
proof -
  define P where "P = (\<lambda>(h1 :: 'w handler) sid kp limit from st1 y.
     (\<forall>sid p w. snd (RemoveMetadata h1 sid p w) = snd (RemoveMetadata h2 sid p w)) \<longrightarrow>
     GetMetadataFolders h1 = GetMetadataFolders h2 \<longrightarrow>
     GetModificationTimes h1 = GetModificationTimes h2 \<longrightarrow>
     getFileNamesInPrefix h1 = getFileNamesInPrefix h2 \<longrightarrow>
     (\<forall>st2. same_outcome st1 st2 \<longrightarrow>
        (\<exists>s2. sweep_pages h2 sid kp limit from st2 = Some (fst y, s2) \<and> same_outcome (snd y) s2)))"
  have "P h1 sid kp limit from st1 y"
  proof (rule sweep_pages.raw_induct [where P = P, OF _ run])
    fix sweep and h1 :: "'w handler" and sid kp limit "from" st1 y
    assume IH: "\<And>h sid kp limit from st y. sweep h sid kp limit from st = Some y
                  \<Longrightarrow> P h sid kp limit from st y"
      and body: "(case fst (GetMetadataFolders h1 sid from limit (world st1)) of
        Inl err \<Rightarrow>
          Some (Some err,
                fsLog (LogUnableToGetFolders err)
                  (st1\<lparr>world := snd (GetMetadataFolders h1 sid from limit (world st1))\<rparr>))
      | Inr metadataFolders \<Rightarrow>
          (case check_folders h1 sid kp metadataFolders from
                  (st1\<lparr>world := snd (GetMetadataFolders h1 sid from limit (world st1))\<rparr>) of
             (Some err, from1, st1) \<Rightarrow> Some (Some err, st1)
           | (None, from1, st1) \<Rightarrow>
               if length metadataFolders < limit then Some (None, st1)
               else sweep h1 sid kp limit from1 st1)) = Some y"
    show "P h1 sid kp limit from st1 y"
      unfolding P_def
    proof (intro impI allI)
    fix st2
    assume ag': "\<forall>sid p w. snd (RemoveMetadata h1 sid p w) = snd (RemoveMetadata h2 sid p w)"
      and mf: "GetMetadataFolders h1 = GetMetadataFolders h2"
      and mt: "GetModificationTimes h1 = GetModificationTimes h2"
      and fn: "getFileNamesInPrefix h1 = getFileNamesInPrefix h2"
      and so: "same_outcome st1 st2"
    from ag' have ag:
      "\<And>sid p w. snd (RemoveMetadata h1 sid p w) = snd (RemoveMetadata h2 sid p w)"
      by simp
    have w: "world st1 = world st2" using so by (simp add: same_outcome_def)
    define res where "res = GetMetadataFolders h2 sid from limit (world st2)"
    have so2: "same_outcome (st1\<lparr>world := snd res\<rparr>) (st2\<lparr>world := snd res\<rparr>)"
      using so by (rule same_outcome_world)
    show "\<exists>s2. sweep_pages h2 sid kp limit from st2 = Some (fst y, s2) \<and> same_outcome (snd y) s2"
    proof (cases "fst res")
      case (Inl err)
      then have "y = (Some err, fsLog (LogUnableToGetFolders err) (st1\<lparr>world := snd res\<rparr>))"
        using body by (simp add: mf w res_def [symmetric])
      moreover have "sweep_pages h2 sid kp limit from st2 =
          Some (Some err, fsLog (LogUnableToGetFolders err) (st2\<lparr>world := snd res\<rparr>))"
        using Inl by (subst sweep_pages.simps) (simp add: res_def [symmetric])
      ultimately show ?thesis using so2 by simp
    next
      case (Inr folders)
      obtain r1 f1 s1 where c1:
        "check_folders h1 sid kp folders from (st1\<lparr>world := snd res\<rparr>) = (r1, f1, s1)"
        by (cases "check_folders h1 sid kp folders from (st1\<lparr>world := snd res\<rparr>)")
      obtain r2 f2 s2 where c2:
        "check_folders h2 sid kp folders from (st2\<lparr>world := snd res\<rparr>) = (r2, f2, s2)"
        by (cases "check_folders h2 sid kp folders from (st2\<lparr>world := snd res\<rparr>)")
      from check_folders_agree [OF ag mt fn so2, of sid kp folders "from"] c1 c2
      have r: "r1 = r2" and f: "f1 = f2" and s: "same_outcome s1 s2" by simp_all
      have unfold2: "sweep_pages h2 sid kp limit from st2 =
         (case r2 of Some err \<Rightarrow> Some (Some err, s2)
          | None \<Rightarrow> if length folders < limit then Some (None, s2)
                    else sweep_pages h2 sid kp limit f2 s2)"
        using Inr c2 by (subst sweep_pages.simps) (simp add: res_def [symmetric] split: option.splits)
      have unfold1: "(case r1 of Some err \<Rightarrow> Some (Some err, s1)
          | None \<Rightarrow> if length folders < limit then Some (None, s1)
                    else sweep h1 sid kp limit f1 s1) = Some y"
        using body Inr c1
        by (auto simp: mf w res_def [symmetric] split: option.splits if_splits)
      show ?thesis
      proof (cases r1)
        case (Some err)
        then show ?thesis using unfold1 unfold2 r s by auto
      next
        case None
        show ?thesis
        proof (cases "length folders < limit")
          case True
          then show ?thesis using None unfold1 unfold2 r s by auto
        next
          case False
          then have "sweep h1 sid kp limit f1 s1 = Some y"
            using None unfold1 by simp
          from IH [OF this] ag' mf mt fn s
          show ?thesis using None False unfold2 r f by (simp add: P_def)
        qed
      qed
    qed
  qed
  qed
  then show ?thesis unfolding P_def .
qed

lemma sweep_pages_agree:
  assumes ag: "\<And>sid p w. snd (RemoveMetadata h1 sid p w) = snd (RemoveMetadata h2 sid p w)"
    and mf: "GetMetadataFolders h1 = GetMetadataFolders h2"
    and mt: "GetModificationTimes h1 = GetModificationTimes h2"
    and fn: "getFileNamesInPrefix h1 = getFileNamesInPrefix h2"
    and so: "same_outcome st1 st2"
  shows "map_option outcome (sweep_pages h1 sid kp limit from st1)
       = map_option outcome (sweep_pages h2 sid kp limit from st2)"
proof (cases "sweep_pages h1 sid kp limit from st1")
  case (Some y)
  from sweep_pages_agree_aux [OF Some, of h2] ag mf mt fn so
  obtain s2 where "sweep_pages h2 sid kp limit from st2 = Some (fst y, s2)" "same_outcome (snd y) s2"
    by blast
  then show ?thesis using Some by (simp add: outcome_def same_outcome_def)
next
  case None
  show ?thesis
  proof (cases "sweep_pages h2 sid kp limit from st2")
    case (Some y)
    have so': "same_outcome st2 st1" using so by (simp add: same_outcome_def)
    from sweep_pages_agree_aux [OF Some, of h1] ag mf mt fn so'
    obtain s1 where "sweep_pages h1 sid kp limit from st1 = Some (fst y, s1)"
      by (auto simp: eq_commute)
    with None show ?thesis by simp
  next
    case None': None
    with None show ?thesis by simp
  qed
qed

lemma with_remove_errors_fields [simp]:
  "HasMetadater (with_remove_errors f h) = HasMetadater h"
  "GetMetadataFolders (with_remove_errors f h) = GetMetadataFolders h"
  "GetModificationTimes (with_remove_errors f h) = GetModificationTimes h"
  "getFileNamesInPrefix (with_remove_errors f h) = getFileNamesInPrefix h"
  "snd (RemoveMetadata (with_remove_errors f h) sid p w) = snd (RemoveMetadata h sid p w)"
  "fst (RemoveMetadata (with_remove_errors f h) sid p w) = f sid p w"
  by (simp_all add: with_remove_errors_def)

lemma fsMetadataCheck_remove_errors:
  "map_option outcome (fsMetadataCheck (with_remove_errors f h) sid kp st)
     = map_option outcome (fsMetadataCheck h sid kp st)"
proof -
  have "map_option outcome (sweep_pages (with_remove_errors f h) sid kp 100 [] st)
       = map_option outcome (sweep_pages h sid kp 100 [] st)"
    by (rule sweep_pages_agree) (simp_all add: same_outcome_def)
  then show ?thesis by (simp add: fsMetadataCheck_def)
qed

lemma sweep_pages_folders_error:
  assumes "GetMetadataFolders h sid from limit (world st) = (Inl e, w)"
  shows "sweep_pages h sid kp limit from st =
           Some (Some e, fsLog (LogUnableToGetFolders e) (st\<lparr>world := w\<rparr>))"
  using assms by (subst sweep_pages.simps) simp

lemma sweep_pages_folder_error:
  assumes "GetMetadataFolders h sid from limit (world st) = (Inr folders, w)"
    and "check_folders h sid kp folders from (st\<lparr>world := w\<rparr>) = (Some e, from', st')"
  shows "sweep_pages h sid kp limit from st = Some (Some e, st')"
  using assms by (subst sweep_pages.simps) simp

lemma check_folder_times_error:
  assumes "in_scope kp folder"
    and "GetModificationTimes h sid folder (world st) = (Inl e, w)"
  shows "check_folder h sid kp folder st =
     (Some e, fsLog (LogUnableToGetModTimes folder e) (fsLog (LogCheckFolder folder) st\<lparr>world := w\<rparr>))"
  using assms by (auto simp: check_folder_def in_scope_def Let_def)

lemma check_folder_listing_error:
  assumes "in_scope kp folder"
    and "GetModificationTimes h sid folder (world st) = (Inr mv, w)" and "mv \<noteq> []"
    and "getFileNamesInPrefix h (if \<not> HasSuffix folder ''/'' then folder @ ''/'' else folder) w
           = (Inl e, w')"
  shows "check_folder h sid kp folder st =
     (Some e, fsLog (LogUnableToGetContent
                       (if \<not> HasSuffix folder ''/'' then folder @ ''/'' else folder) e)
                (fsLog (LogCheckFolder folder) st\<lparr>world := w'\<rparr>))"
  using assms by (auto simp: check_folder_def in_scope_def Let_def)

lemma check_folders_abort:
  assumes "check_folders h sid kp pre from st = (None, from', st')"
    and "check_folder h sid kp folder st' = (Some e, st'')"
  shows "check_folders h sid kp (pre @ folder # rest) from st = (Some e, folder, st'')"
  using assms
proof (induction pre arbitrary: "from" st)
  case Nil
  then show ?case by simp
next
  case (Cons a pre)
  then show ?case
    by (cases "check_folder h sid kp a st") (auto split: option.splits)
qed

lemma remove_missing_error_step:
  assumes "fileNames k = None"
    and "RemoveMetadata h sid (ensureAbsPath (Join [folder, k])) (world st) = (Some e, w)"
  shows "remove_missing h sid folder fileNames (k # ks) st =
     remove_missing h sid folder fileNames ks
       (fsLog (LogUnableToRemove (ensureAbsPath (Join [folder, k])) e)
          (st\<lparr>world := w, removed := removed st @ [(sid, ensureAbsPath (Join [folder, k]))]\<rparr>))"
  using assms by (simp add: Let_def)










text \<open>
  C4. An error of \<open>RemoveMetadata\<close> is logged with severity error and the loop goes on
  with the next key; replacing the errors that \<open>RemoveMetadata\<close> returns by any others
  changes nothing of the outcome of the sweep (what it returns, the outside world, the
  calls it makes), also not whether it returns. An error of \<open>GetMetadataFolders\<close>,
  of \<open>GetModificationTimes\<close> or of \<open>getFileNamesInPrefix\<close> is logged and returned at
  once: the remaining keys, folders and pages are not visited.
\<close>

theorem sweep_error_handling:
  "map_option outcome (fsMetadataCheck (with_remove_errors f h) storageID keyPrefix st)
     = map_option outcome (fsMetadataCheck h storageID keyPrefix st)
   \<and> (fileNames k = None
       \<and> RemoveMetadata h storageID (ensureAbsPath (Join [folder, k])) (world st) = (Some e, w) \<longrightarrow>
        remove_missing h storageID folder fileNames (k # ks) st =
          remove_missing h storageID folder fileNames ks
            (fsLog (LogUnableToRemove (ensureAbsPath (Join [folder, k])) e)
               (st\<lparr>world := w,
                   removed := removed st @ [(storageID, ensureAbsPath (Join [folder, k]))]\<rparr>)))
   \<and> level_of (LogUnableToRemove (ensureAbsPath (Join [folder, k])) e) = LevelError
   \<and> (GetMetadataFolders h storageID from limit (world st) = (Inl e, w) \<longrightarrow>
        sweep_pages h storageID keyPrefix limit from st =
          Some (Some e, fsLog (LogUnableToGetFolders e) (st\<lparr>world := w\<rparr>)))
   \<and> (in_scope keyPrefix folder
       \<and> GetModificationTimes h storageID folder (world st) = (Inl e, w) \<longrightarrow>
        check_folder h storageID keyPrefix folder st =
          (Some e, fsLog (LogUnableToGetModTimes folder e)
                     ((fsLog (LogCheckFolder folder) st)\<lparr>world := w\<rparr>)))
   \<and> (in_scope keyPrefix folder
       \<and> GetModificationTimes h storageID folder (world st) = (Inr metadataValues, w)
       \<and> metadataValues \<noteq> []
       \<and> getFileNamesInPrefix h (if \<not> HasSuffix folder ''/'' then folder @ ''/'' else folder) w
            = (Inl e, w') \<longrightarrow>
        check_folder h storageID keyPrefix folder st =
          (Some e, fsLog (LogUnableToGetContent
                            (if \<not> HasSuffix folder ''/'' then folder @ ''/'' else folder) e)
                     ((fsLog (LogCheckFolder folder) st)\<lparr>world := w'\<rparr>)))
   \<and> (check_folders h storageID keyPrefix pre from st = (None, next_from, st_pre)
       \<and> check_folder h storageID keyPrefix folder st_pre = (Some e, st_err) \<longrightarrow>
        check_folders h storageID keyPrefix (pre @ folder # rest) from st = (Some e, folder, st_err))
   \<and> (GetMetadataFolders h storageID from limit (world st) = (Inr metadataFolders, w)
       \<and> check_folders h storageID keyPrefix metadataFolders from (st\<lparr>world := w\<rparr>)
            = (Some e, next_from, st_pre) \<longrightarrow>
        sweep_pages h storageID keyPrefix limit from st = Some (Some e, st_pre))
   \<and> (HasMetadater h (world st) \<longrightarrow>
        fsMetadataCheck h storageID keyPrefix st = sweep_pages h storageID keyPrefix 100 [] st)"
  using fsMetadataCheck_remove_errors [of f h storageID keyPrefix st]
    remove_missing_error_step [of fileNames k h storageID folder st e w ks]
    sweep_pages_folders_error [of h storageID "from" limit st e w keyPrefix]
    check_folder_times_error [of keyPrefix folder h storageID st e w]
    check_folder_listing_error [of keyPrefix folder h storageID st metadataValues w e w']
    check_folders_abort [of h storageID keyPrefix pre "from" st next_from st_pre folder e st_err rest]
    sweep_pages_folder_error [of h storageID "from" limit st metadataFolders w keyPrefix e next_from st_pre]
  by (simp add: fsMetadataCheck_def)

theorem sweep_error_handling_witness:
  "fsMetadataCheck failing_remove ''s'' [] sweep_start =
     Some (None, \<lparr>world = (), removed = [(''s'', ''/p/a/y'')],
                  logged = [LogCheckFolder ''/p/a'',
                            LogUnableToRemove ''/p/a/y'' (ErrExternal ''remove failed''),
                            LogCheckFolder ''/p/b'', LogNoMetadata ''/p/b'']\<rparr>)
   \<and> map_option outcome (fsMetadataCheck failing_remove ''s'' [] sweep_start)
       = map_option outcome (fsMetadataCheck example_handler ''s'' [] sweep_start)
   \<and> HasMetadater failing_folders (world sweep_start)
   \<and> GetMetadataFolders failing_folders ''s'' [] 100 (world sweep_start)
       = (Inl (ErrExternal ''folders failed''), ())
   \<and> fsMetadataCheck failing_folders ''s'' [] sweep_start =
       Some (Some (ErrExternal ''folders failed''),
             fsLog (LogUnableToGetFolders (ErrExternal ''folders failed'')) sweep_start)
   \<and> in_scope [] ''/p/a''
   \<and> GetModificationTimes failing_times ''s'' ''/p/a'' (world sweep_start)
       = (Inl (ErrExternal ''times failed''), ())
   \<and> fst (check_folder failing_times ''s'' [] ''/p/a'' sweep_start) = Some (ErrExternal ''times failed'')
   \<and> fsMetadataCheck failing_times ''s'' [] sweep_start =
       Some (Some (ErrExternal ''times failed''),
             \<lparr>world = (), removed = [],
              logged = [LogCheckFolder ''/p/a'',
                        LogUnableToGetModTimes ''/p/a'' (ErrExternal ''times failed'')]\<rparr>)
   \<and> fsMetadataCheck failing_listing ''s'' [] sweep_start =
       Some (Some (ErrExternal ''listing failed''),
             \<lparr>world = (), removed = [],
              logged = [LogCheckFolder ''/p/a'',
                        LogUnableToGetContent ''/p/a/'' (ErrExternal ''listing failed'')]\<rparr>)
   \<and> [''x'' \<mapsto> True] ''y'' = None
   \<and> RemoveMetadata failing_remove ''s'' (ensureAbsPath (Join [''/p/a'', ''y''])) (world sweep_start)
       = (Some (ErrExternal ''remove failed''), ())
   \<and> logged (remove_missing failing_remove ''s'' ''/p/a'' [''x'' \<mapsto> True] [''y'', ''x''] sweep_start)
       = [LogUnableToRemove ''/p/a/y'' (ErrExternal ''remove failed'')]
   \<and> GetModificationTimes failing_listing ''s'' ''/p/a'' (world sweep_start)
       = (Inr [(''x'', 1), (''y'', 2)], ())
   \<and> getFileNamesInPrefix failing_listing ''/p/a/'' () = (Inl (ErrExternal ''listing failed''), ())
   \<and> fst (check_folder failing_listing ''s'' [] ''/p/a'' sweep_start)
       = Some (ErrExternal ''listing failed'')
   \<and> check_folders failing_times ''s'' [] [] [] sweep_start = (None, [], sweep_start)
   \<and> check_folders failing_times ''s'' [] ([] @ ''/p/a'' # [''/p/b'']) [] sweep_start =
       (Some (ErrExternal ''times failed''), ''/p/a'',
        snd (check_folder failing_times ''s'' [] ''/p/a'' sweep_start))
   \<and> GetMetadataFolders failing_times ''s'' [] 100 (world sweep_start)
       = (Inr [''/p/a'', ''/p/b''], ())
   \<and> sweep_pages failing_times ''s'' [] 100 [] sweep_start =
       Some (Some (ErrExternal ''times failed''),
             snd (check_folder failing_times ''s'' [] ''/p/a'' sweep_start))"
proof -
  have r: "fsMetadataCheck failing_remove ''s'' [] sweep_start =
     Some (None, \<lparr>world = (), removed = [(''s'', ''/p/a/y'')],
                  logged = [LogCheckFolder ''/p/a'',
                            LogUnableToRemove ''/p/a/y'' (ErrExternal ''remove failed''),
                            LogCheckFolder ''/p/b'', LogNoMetadata ''/p/b'']\<rparr>)"
    by code_simp
  have t: "fsMetadataCheck failing_times ''s'' [] sweep_start =
       Some (Some (ErrExternal ''times failed''),
             \<lparr>world = (), removed = [],
              logged = [LogCheckFolder ''/p/a'',
                        LogUnableToGetModTimes ''/p/a'' (ErrExternal ''times failed'')]\<rparr>)"
    by code_simp
  have l: "fsMetadataCheck failing_listing ''s'' [] sweep_start =
       Some (Some (ErrExternal ''listing failed''),
             \<lparr>world = (), removed = [],
              logged = [LogCheckFolder ''/p/a'',
                        LogUnableToGetContent ''/p/a/'' (ErrExternal ''listing failed'')]\<rparr>)"
    by code_simp
  have hm: "HasMetadater failing_folders (world sweep_start)"
    by (simp add: failing_folders_def example_handler_def)
  have gf: "GetMetadataFolders failing_folders ''s'' [] 100 (world sweep_start)
       = (Inl (ErrExternal ''folders failed''), ())"
    by (simp add: failing_folders_def)
  have sc: "in_scope [] ''/p/a''" by (simp add: in_scope_def)
  have gt: "GetModificationTimes failing_times ''s'' ''/p/a'' (world sweep_start)
       = (Inl (ErrExternal ''times failed''), ())"
    by (simp add: failing_times_def)
  have ws: "sweep_start\<lparr>world := ()\<rparr> = sweep_start" by simp
  note remove = sweep_error_handling [where h = example_handler and storageID = "''s''"
      and keyPrefix = "[]" and st = sweep_start
      and f = "\<lambda>storageID filePath w. Some (ErrExternal ''remove failed'')"]
  note folders = sweep_error_handling [where h = failing_folders and storageID = "''s''"
      and keyPrefix = "[]" and st = sweep_start and ?from = "[]" and limit = 100
      and e = "ErrExternal ''folders failed''" and w = "()"]
  note times = sweep_error_handling [where h = failing_times and storageID = "''s''"
      and keyPrefix = "[]" and st = sweep_start and folder = "''/p/a''"
      and e = "ErrExternal ''times failed''" and w = "()"]
  have 1: "map_option outcome (fsMetadataCheck failing_remove ''s'' [] sweep_start)
       = map_option outcome (fsMetadataCheck example_handler ''s'' [] sweep_start)"
    using remove unfolding failing_remove_def by blast
  have 2: "fsMetadataCheck failing_folders ''s'' [] sweep_start =
       Some (Some (ErrExternal ''folders failed''),
             fsLog (LogUnableToGetFolders (ErrExternal ''folders failed'')) sweep_start)"
    using folders hm gf ws by simp
  have 3: "fst (check_folder failing_times ''s'' [] ''/p/a'' sweep_start) = Some (ErrExternal ''times failed'')"
    using times sc gt by simp
  let ?rm = "ErrExternal ''remove failed''"
  let ?tm = "ErrExternal ''times failed''"
  let ?ls = "ErrExternal ''listing failed''"
  have path: "ensureAbsPath (Join [''/p/a'', ''y'']) = ''/p/a/y''" by code_simp
  have k: "[''x'' \<mapsto> True] ''y'' = None" "[''x'' \<mapsto> True] ''x'' \<noteq> None" by simp_all
  have rmv: "RemoveMetadata failing_remove ''s'' (ensureAbsPath (Join [''/p/a'', ''y'']))
               (world sweep_start) = (Some ?rm, ())"
    by (simp add: failing_remove_def with_remove_errors_def)
  note step = sweep_error_handling [where h = failing_remove and storageID = "''s''"
      and st = sweep_start and fileNames = "[''x'' \<mapsto> True]" and k = "''y''" and ks = "[''x'']"
      and folder = "''/p/a''" and e = ?rm and w = "()"]
  have 4: "logged (remove_missing failing_remove ''s'' ''/p/a'' [''x'' \<mapsto> True] [''y'', ''x''] sweep_start)
       = [LogUnableToRemove ''/p/a/y'' ?rm]"
    using step k rmv by (simp add: path sweep_start_def fsLog_def)
  have gl: "GetModificationTimes failing_listing ''s'' ''/p/a'' (world sweep_start)
       = (Inr [(''x'', 1), (''y'', 2)], ())"
    by (simp add: failing_listing_def example_handler_def)
  have fl: "getFileNamesInPrefix failing_listing ''/p/a/'' () = (Inl ?ls, ())"
    by (simp add: failing_listing_def)
  have sfx: "(if \<not> HasSuffix ''/p/a'' ''/'' then ''/p/a'' @ ''/'' else ''/p/a'') = ''/p/a/''"
    by (simp add: HasSuffix_def)
  note listing = sweep_error_handling [where h = failing_listing and storageID = "''s''"
      and keyPrefix = "[]" and st = sweep_start and folder = "''/p/a''"
      and metadataValues = "[(''x'', 1), (''y'', 2)]" and e = ?ls and w = "()" and w' = "()"]
  have 5: "fst (check_folder failing_listing ''s'' [] ''/p/a'' sweep_start) = Some ?ls"
    using listing sc gl fl by (simp add: sfx)
  note times = sweep_error_handling [where h = failing_times and storageID = "''s''"
      and keyPrefix = "[]" and st = sweep_start and folder = "''/p/a''" and e = ?tm and w = "()"
      and pre = "[]" and ?from = "[]" and next_from = "[]" and st_pre = sweep_start
      and st_err = "snd (check_folder failing_times ''s'' [] ''/p/a'' sweep_start)"
      and rest = "[''/p/b'']" and limit = 100 and metadataFolders = "[''/p/a'', ''/p/b'']"]
  have cf: "check_folder failing_times ''s'' [] ''/p/a'' sweep_start =
       (Some ?tm, snd (check_folder failing_times ''s'' [] ''/p/a'' sweep_start))"
    using times sc gt by simp
  have pre: "check_folders failing_times ''s'' [] [] [] sweep_start = (None, [], sweep_start)"
    by simp
  have 6: "check_folders failing_times ''s'' [] ([] @ ''/p/a'' # [''/p/b'']) [] sweep_start =
       (Some ?tm, ''/p/a'', snd (check_folder failing_times ''s'' [] ''/p/a'' sweep_start))"
    using times pre cf by blast
  have gm: "GetMetadataFolders failing_times ''s'' [] 100 (world sweep_start)
       = (Inr [''/p/a'', ''/p/b''], ())"
    by (simp add: failing_times_def example_handler_def)
  have pg: "check_folders failing_times ''s'' [] [''/p/a'', ''/p/b''] [] (sweep_start\<lparr>world := ()\<rparr>) =
       (Some ?tm, ''/p/a'', snd (check_folder failing_times ''s'' [] ''/p/a'' sweep_start))"
    using 6 by (simp only: ws append_Nil)
  note pages = sweep_error_handling [where h = failing_times and storageID = "''s''"
      and keyPrefix = "[]" and st = sweep_start and e = ?tm and w = "()"
      and ?from = "[]" and next_from = "''/p/a''"
      and st_pre = "snd (check_folder failing_times ''s'' [] ''/p/a'' sweep_start)"
      and limit = 100 and metadataFolders = "[''/p/a'', ''/p/b'']"]
  have 7: "sweep_pages failing_times ''s'' [] 100 [] sweep_start =
       Some (Some ?tm, snd (check_folder failing_times ''s'' [] ''/p/a'' sweep_start))"
    using pages gm pg by blast
  show ?thesis
    using r t l hm gf sc gt 1 2 3 k rmv 4 gl fl 5 pre 6 gm 7 by simp
qed

section \<open>Properties of the PipeWriter\<close>






text \<open>
  When \<open>p.writer.Close()\<close> does not return (a synchronous pipe whose reading end is
  never closed), \<open>Close\<close> stays inside it and \<open>Done\<close> stays at its send: every run
  ends in a deadlock, whatever the order of the steps.
\<close>

lemma runs_blocked:
  assumes "\<not> closes" "\<not> writer_Close_returns w"
  shows "set (runs 6 closes e (NewPipeWriter w)) = {Deadlock}"
proof (cases w)
  case (fields s r c)
  show ?thesis
    using assms unfolding fields
    by (cases s; cases r)
       (simp_all add: eval_nat_numeral NewPipeWriter_def next_states_def reader_states_def
          writer_Close_returns_def)
qed



end
